theory Spec2Isabelle
  imports Main "HOL-Library.Sublist" "HOL-Library.Char_ord"
begin

section \<open>Strings\<close>

text \<open>
  A Python \<open>str\<close> is modelled as a \<open>string\<close>, one \<open>char\<close> per code point. A
  \<open>char\<close> has 256 values, so the model covers the strings whose code points are below 256
  (ASCII and Latin-1), and on those the functions below agree with Python code point for
  code point: \<open>str.lower\<close>, \<open>str.isspace\<close> (used by \<open>str.strip\<close> and by the pattern
  \<open>\s\<close>) and the pattern \<open>\d\<close>. The substring test \<open>a in b\<close> is \<open>sublist a b\<close>, the
  test \<open>b.startswith(a)\<close> is \<open>prefix a b\<close>.
\<close>

definition is_upper :: "char \<Rightarrow> bool" where
  "is_upper c = ((CHR ''A'' \<le> c \<and> c \<le> CHR ''Z'')
     \<or> (CHR 0xC0 \<le> c \<and> c \<le> CHR 0xDE \<and> c \<noteq> CHR 0xD7))"

definition lower_char :: "char \<Rightarrow> char" where
  "lower_char c = (if is_upper c then char_of (of_char c + (32::nat)) else c)"

text \<open>\<open>s.lower()\<close>\<close>

definition lower :: "string \<Rightarrow> string" where
  "lower s = map lower_char s"

definition is_space :: "char \<Rightarrow> bool" where
  "is_space c = ((CHR 0x09 \<le> c \<and> c \<le> CHR 0x0D) \<or> (CHR 0x1C \<le> c \<and> c \<le> CHR 0x20)
     \<or> c = CHR 0x85 \<or> c = CHR 0xA0)"

definition is_digit :: "char \<Rightarrow> bool" where
  "is_digit c = (CHR ''0'' \<le> c \<and> c \<le> CHR ''9'')"

text \<open>\<open>s.strip()\<close>: leading and trailing whitespace removed.\<close>

definition strip :: "string \<Rightarrow> string" where
  "strip s = rev (dropWhile is_space (rev (dropWhile is_space s)))"

text \<open>\<open>s.split("\n")\<close>: the pieces between the newlines, at least one piece.\<close>

fun split_lines :: "string \<Rightarrow> string list" where
  "split_lines [] = [[]]"
| "split_lines (c # cs) =
     (if c = CHR 0x0A then [] # split_lines cs
      else (c # hd (split_lines cs)) # tl (split_lines cs))"

text \<open>\<open>str(n)\<close> of a natural number, as the f-strings print it.\<close>

definition digit_char :: "nat \<Rightarrow> char" where
  "digit_char d = char_of (48 + d)"

function str_of_nat :: "nat \<Rightarrow> string" where
  "str_of_nat n = (if n < 10 then [digit_char n] else str_of_nat (n div 10) @ [digit_char (n mod 10)])"
  by pat_completeness auto
termination
  by (relation "measure id") auto

declare str_of_nat.simps [simp del]

text \<open>\<open>int(ds)\<close> of a string of decimal digits.\<close>

definition digit_val :: "char \<Rightarrow> nat" where
  "digit_val c = of_char c - 48"

definition int_of_digits :: "string \<Rightarrow> nat" where
  "int_of_digits ds = foldl (\<lambda>n c. 10 * n + digit_val c) 0 ds"

section \<open>Utility\<close>

text \<open>
  \<^verbatim>\<open>re.sub(r'[^a-zA-Z0-9_\-]', '_', text)[:50]\<close>: every character outside the class
  is one match of the pattern and is replaced by an underscore; the slice keeps the first
  50 characters.
\<close>

definition is_filename_char :: "char \<Rightarrow> bool" where
  "is_filename_char c = ((CHR ''a'' \<le> c \<and> c \<le> CHR ''z'') \<or> (CHR ''A'' \<le> c \<and> c \<le> CHR ''Z'')
     \<or> (CHR ''0'' \<le> c \<and> c \<le> CHR ''9'') \<or> c = CHR ''_'' \<or> c = CHR ''-'')"

definition sanitize_filename :: "string \<Rightarrow> string" where
  "sanitize_filename text = take 50 (map (\<lambda>c. if is_filename_char c then c else CHR ''_'') text)"

text \<open>
  \<open>os.path.join(a, b)\<close> with two arguments, as \<open>posixpath\<close> computes it: an absolute \<open>b\<close>
  replaces \<open>a\<close>; otherwise the two are joined by one separator, which is left out when
  \<open>a\<close> is empty or already ends with it.
\<close>

definition path_join :: "string \<Rightarrow> string \<Rightarrow> string" where
  "path_join a b =
     (if prefix ''/'' b then b
      else if a = [] \<or> suffix ''/'' a then a @ b
      else a @ ''/'' @ b)"

section \<open>Pattern matching\<close>

text \<open>
  The two patterns of the program are embedded with the matching order of Python's \<open>re\<close>
  module: a backtracking matcher in continuation-passing style. A matcher reads the rest
  of the text and either fails (\<open>None\<close>) or returns its result; the continuation \<open>k\<close> is
  the rest of the pattern, and an alternative is tried only when everything after the
  earlier one has failed.
\<close>

type_synonym 'a matcher = "string \<Rightarrow> 'a option"

text \<open>A literal piece of the pattern.\<close>

definition lit :: "string \<Rightarrow> 'a matcher \<Rightarrow> 'a matcher" where
  "lit p k s = (if prefix p s then k (drop (length p) s) else None)"

text \<open>
  A lazy captured group \<open>(X*?)\<close> over the character class \<open>cls\<close>: the shortest group
  first, one more character each time the rest of the pattern fails. The continuation takes
  the group.
\<close>

fun lazy_star :: "(char \<Rightarrow> bool) \<Rightarrow> (string \<Rightarrow> 'a matcher) \<Rightarrow> 'a matcher" where
  "lazy_star cls k [] = k [] []"
| "lazy_star cls k (c # cs) =
     (case k [] (c # cs) of
        Some r \<Rightarrow> Some r
      | None \<Rightarrow> if cls c then lazy_star cls (\<lambda>g. k (c # g)) cs else None)"

text \<open>A greedy repetition \<open>X*\<close>: the longest run first, giving characters back on failure.\<close>

fun greedy_star :: "(char \<Rightarrow> bool) \<Rightarrow> 'a matcher \<Rightarrow> 'a matcher" where
  "greedy_star cls k [] = k []"
| "greedy_star cls k (c # cs) =
     (if cls c then (case greedy_star cls k cs of Some r \<Rightarrow> Some r | None \<Rightarrow> k (c # cs))
      else k (c # cs))"

text \<open>\<open>X+\<close>: one character of the class, then \<open>X*\<close>.\<close>

definition greedy_plus :: "(char \<Rightarrow> bool) \<Rightarrow> 'a matcher \<Rightarrow> 'a matcher" where
  "greedy_plus cls k s = (case s of [] \<Rightarrow> None | c # cs \<Rightarrow> if cls c then greedy_star cls k cs else None)"

text \<open>A lookahead \<open>(?=...)\<close>: a test of the rest of the text that consumes nothing.\<close>

definition lookahead :: "(string \<Rightarrow> bool) \<Rightarrow> 'a matcher \<Rightarrow> 'a matcher" where
  "lookahead p k s = (if p s then k s else None)"

text \<open>
  \<open>re.findall\<close> for a pattern with groups: the matcher is tried at each position from
  the left, a match contributes its groups and the scan goes on where the match ended. A
  match that consumes nothing is recorded and the scan moves on by one character; neither
  pattern of this program matches the empty string (\<open>article_re_consumes\<close>,
  \<open>slide_re_consumes\<close>), so that branch is never taken.
\<close>

function findall :: "('g \<times> string) matcher \<Rightarrow> string \<Rightarrow> 'g list" where
  "findall re s =
     (case re s of
        Some (g, rest) \<Rightarrow>
          if length rest < length s then g # findall re rest
          else (case s of [] \<Rightarrow> [g] | c # cs \<Rightarrow> g # findall re cs)
      | None \<Rightarrow> (case s of [] \<Rightarrow> [] | c # cs \<Rightarrow> findall re cs))"
  by pat_completeness auto
termination
  by (relation "measure (\<lambda>(re, s). length s)") auto

declare findall.simps [simp del]

text \<open>
  \<^verbatim>\<open>r"ARTICLE START\n(.*?)\n(.*?)\nARTICLE END"\<close> with \<open>re.DOTALL\<close>: both groups are lazy
  and the dot matches every character, the newline included.
\<close>

definition article_re :: "((string \<times> string) \<times> string) matcher" where
  "article_re =
     lit ''ARTICLE START\<newline>'' (lazy_star (\<lambda>c. True) (\<lambda>title.
     lit ''\<newline>'' (lazy_star (\<lambda>c. True) (\<lambda>content.
     lit ''\<newline>ARTICLE END'' (\<lambda>rest. Some ((title, content), rest))))))"

text \<open>
  \<^verbatim>\<open>r"SLIDE\s*\d+:\s*(.*?)\n([\s\S]*?)(?=SLIDE|\Z)"\<close> with \<open>re.MULTILINE\<close> (which only
  changes \<open>^\<close> and \<open>$\<close>, absent here): the dot of the first group does not match a newline,
  the class of the second group matches every character.
\<close>

definition slide_re :: "((string \<times> string) \<times> string) matcher" where
  "slide_re =
     lit ''SLIDE'' (greedy_star is_space (greedy_plus is_digit (lit '':'' (greedy_star is_space
     (lazy_star (\<lambda>c. c \<noteq> CHR 0x0A) (\<lambda>title.
     lit ''\<newline>'' (lazy_star (\<lambda>c. True) (\<lambda>content.
     lookahead (\<lambda>s. prefix ''SLIDE'' s \<or> s = []) (\<lambda>rest. Some ((title, content), rest))))))))))"

text \<open>
  \<^verbatim>\<open>re.search(r"(\d+)", prompt)\<close>: the leftmost match of a greedy run of digits, that is
  the first digit of the text with all the digits that follow it.
\<close>

definition search_digits :: "string \<Rightarrow> string option" where
  "search_digits s =
     (case dropWhile (\<lambda>c. \<not> is_digit c) s of [] \<Rightarrow> None | d # r \<Rightarrow> Some (takeWhile is_digit (d # r)))"

section \<open>The world outside the program\<close>

text \<open>
  What a handler writes to disk is modelled by what it hands to the writing library: the
  text of a text file, the rows of a workbook, the heading and paragraph of a Word
  document, the flowables of a PDF, the slides of a deck.
\<close>

datatype cell = Num nat | Str string

datatype flowable = Heading1 string | Normal string | Spacer

text \<open>
  A slide: its title and the texts of its body, the first being the text set on the body
  placeholder and the others the paragraphs added after it (none when the placeholder is
  left as the layout has it).
\<close>

datatype slide = Slide string "string list"

datatype document =
    TextFile string
  | Workbook "cell list list"
  | WordDoc string string
  | PdfDoc "flowable list"
  | Deck "slide list"

text \<open>
  The lines printed on the console, one constructor per \<open>print\<close> or \<open>input\<close> prompt of
  the source (their texts hold characters outside Latin-1); the argument is the path the
  line reports.
\<close>

datatype message =
    Saved string
  | NotesSaved string
  | QnaSaved string
  | ExcelCreated string
  | DocSaved string
  | PdfSaved string
  | PptSaved string
  | Unsupported
  | Ready
  | AskTask
  | AskFolder

datatype error = ServiceError | EOFError | ValueError

text \<open>
  The state the program acts on: the folders it has made, the files by path, the console,
  and how many requests to the text service and draws from the random generator have been
  made. Calls to the file system are modelled as succeeding.
\<close>

record world =
  dirs :: "string set"
  files :: "string \<rightharpoonup> document"
  console :: "message list"
  requests :: nat
  draws :: nat

text \<open>
  The two sources of values the program does not determine: the answer (or failure) of the
  text service to the \<open>k\<close>-th request, and the \<open>k\<close>-th raw draw of the random generator.
  Every theorem holds for all of them.
\<close>

record env =
  service :: "nat \<Rightarrow> string \<Rightarrow> error + string"
  rnd :: "nat \<Rightarrow> nat"

text \<open>\<open>os.makedirs(output_folder, exist_ok=True)\<close>\<close>

definition makedirs :: "string \<Rightarrow> world \<Rightarrow> world" where
  "makedirs folder w = w\<lparr>dirs := insert folder (dirs w)\<rparr>"

text \<open>Opening a path for writing and writing the content: the file is created or replaced.\<close>

definition write_file :: "string \<Rightarrow> document \<Rightarrow> world \<Rightarrow> world" where
  "write_file path doc w = w\<lparr>files := (files w)(path \<mapsto> doc)\<rparr>"

definition py_print :: "message \<Rightarrow> world \<Rightarrow> world" where
  "py_print m w = w\<lparr>console := console w @ [m]\<rparr>"

text \<open>\<open>model.generate_content(instruction).text\<close>: one request, answered or failed.\<close>

definition generate_content :: "env \<Rightarrow> string \<Rightarrow> world \<Rightarrow> (error + string) \<times> world" where
  "generate_content e instruction w =
     (service e (requests w) instruction, w\<lparr>requests := Suc (requests w)\<rparr>)"

text \<open>
  \<open>random.choice(xs)\<close> returns the element at an index below \<open>len(xs)\<close>, and
  \<open>random.randint(a, b)\<close> a number from \<open>a\<close> to \<open>b\<close>, both ends included; the raw draw
  \<open>r\<close> selects which. The program calls them with its own constants only: lists that are
  not empty, and bounds with \<open>a \<le> b\<close>. All its numbers are natural numbers.
\<close>

definition choice :: "'a list \<Rightarrow> nat \<Rightarrow> 'a" where
  "choice xs r = xs ! (r mod length xs)"

definition randint :: "nat \<Rightarrow> nat \<Rightarrow> nat \<Rightarrow> nat" where
  "randint a b r = a + r mod (b - a + 1)"

section \<open>File generators\<close>

text \<open>
  Every handler takes the task text and the output folder and returns the world it leaves
  with \<open>Inr ()\<close>, or \<open>Inl\<close> the exception that ended it.
\<close>

subsection \<open>The instructions sent to the text service\<close>

text \<open>The f-strings of the handlers, with the task text in the place of \<open>{prompt}\<close>.\<close>

definition articles_instruction :: "string \<Rightarrow> string" where
  "articles_instruction prompt =
     ''Write multiple detailed articles based on this prompt:\<newline>'' @ prompt @ ''\<newline>''
       @ ''Format strictly as:\<newline>ARTICLE START\<newline><Title>\<newline><Content>\<newline>ARTICLE END''"

definition notes_instruction :: "string \<Rightarrow> string" where
  "notes_instruction prompt = ''Write structured study notes on: '' @ prompt"

definition qna_instruction :: "string \<Rightarrow> string" where
  "qna_instruction prompt =
     ''Generate 10 question and answer pairs on: '' @ prompt @ ''. ''
       @ ''Format as:\<newline>Q: <question>\<newline>A: <answer>\<newline>''"

definition doc_instruction :: "string \<Rightarrow> string" where
  "doc_instruction prompt = ''Write a structured document on: '' @ prompt"

definition pdf_instruction :: "string \<Rightarrow> string" where
  "pdf_instruction prompt = ''Write a detailed PDF report on: '' @ prompt"

definition ppt_instruction :: "string \<Rightarrow> string" where
  "ppt_instruction prompt =
     ''Write bullet points for 5 slides on: '' @ prompt @ ''. ''
       @ ''Strict format:\<newline>SLIDE <n>: <Title>\<newline>- point 1\<newline>- point 2\<newline>...''"

subsection \<open>\<open>save_articles\<close>\<close>

text \<open>
  A block in the format the instruction asks for: the start line, the title line, the
  content, the end line.
\<close>

definition article_block :: "string \<Rightarrow> string \<Rightarrow> string" where
  "article_block title content =
     ''ARTICLE START\<newline>'' @ title @ ''\<newline>'' @ content @ ''\<newline>ARTICLE END''"

text \<open>The file name of the \<open>i\<close>-th article: \<^verbatim>\<open>sanitize_filename(title.strip()) or f"Article_{i}"\<close>.\<close>

definition safe_title :: "nat \<Rightarrow> string \<Rightarrow> string" where
  "safe_title i title =
     (if sanitize_filename (strip title) = [] then ''Article_'' @ str_of_nat i
      else sanitize_filename (strip title))"

text \<open>The path of its file: \<^verbatim>\<open>os.path.join(output_folder, f"{safe_title}.txt")\<close>.\<close>

definition article_path :: "string \<Rightarrow> nat \<Rightarrow> string \<Rightarrow> string" where
  "article_path output_folder i title = path_join output_folder (safe_title i title @ ''.txt'')"

text \<open>The text written for an article: the title, its underline, an empty line, the content.\<close>

definition article_text :: "string \<Rightarrow> string \<Rightarrow> string" where
  "article_text title content =
     strip title @ ''\<newline>'' @ replicate (length (strip title)) CHR ''='' @ ''\<newline>\<newline>''
       @ strip content"

text \<open>The loop over \<open>enumerate(articles, start=1)\<close>, from the index \<open>i\<close> on.\<close>

fun write_articles :: "string \<Rightarrow> nat \<Rightarrow> (string \<times> string) list \<Rightarrow> world \<Rightarrow> world" where
  "write_articles output_folder i [] w = w"
| "write_articles output_folder i ((title, content) # rest) w =
     (let file_path = article_path output_folder i title;
          w1 = write_file file_path (TextFile (article_text title content)) w
      in write_articles output_folder (Suc i) rest (py_print (Saved file_path) w1))"

text \<open>
  The paths that loop writes, in the order of the articles: the observation of
  \<open>write_articles\<close> the theorems about file counts speak of (it is what the loop prints,
  \<open>write_articles_console\<close>).
\<close>

fun article_paths :: "string \<Rightarrow> nat \<Rightarrow> (string \<times> string) list \<Rightarrow> string list" where
  "article_paths output_folder i [] = []"
| "article_paths output_folder i ((title, content) # rest) =
     article_path output_folder i title # article_paths output_folder (Suc i) rest"

definition save_articles :: "env \<Rightarrow> string \<Rightarrow> string \<Rightarrow> world \<Rightarrow> (error + unit) \<times> world" where
  "save_articles e prompt output_folder w =
     (case generate_content e (articles_instruction prompt) (makedirs output_folder w) of
        (Inl err, w1) \<Rightarrow> (Inl err, w1)
      | (Inr response, w1) \<Rightarrow>
          (let text = strip response;
               found = findall article_re text;
               articles = (if found = [] then [(''Generated_Article'', text)] else found)
           in (Inr (), write_articles output_folder 1 articles w1)))"

subsection \<open>\<open>save_notes\<close> and \<open>save_qna\<close>\<close>

definition save_notes :: "env \<Rightarrow> string \<Rightarrow> string \<Rightarrow> world \<Rightarrow> (error + unit) \<times> world" where
  "save_notes e prompt output_folder w =
     (case generate_content e (notes_instruction prompt) (makedirs output_folder w) of
        (Inl err, w1) \<Rightarrow> (Inl err, w1)
      | (Inr response, w1) \<Rightarrow>
          (let file_path = path_join output_folder ''notes.txt'';
               w2 = write_file file_path (TextFile (strip response)) w1
           in (Inr (), py_print (NotesSaved file_path) w2)))"

definition save_qna :: "env \<Rightarrow> string \<Rightarrow> string \<Rightarrow> world \<Rightarrow> (error + unit) \<times> world" where
  "save_qna e prompt output_folder w =
     (case generate_content e (qna_instruction prompt) (makedirs output_folder w) of
        (Inl err, w1) \<Rightarrow> (Inl err, w1)
      | (Inr response, w1) \<Rightarrow>
          (let file_path = path_join output_folder ''QnA.txt'';
               w2 = write_file file_path (TextFile (strip response)) w1
           in (Inr (), py_print (QnaSaved file_path) w2)))"

subsection \<open>\<open>save_excel\<close>\<close>

text \<open>
  \<open>int(ds)\<close> of a string of decimal digits as CPython runs it: a string of more than 4300
  digits, leading zeros counted, is refused with \<open>ValueError\<close> (the default of
  \<open>sys.int_max_str_digits\<close>); a shorter one gives its value.
\<close>

definition py_int :: "string \<Rightarrow> error + nat" where
  "py_int ds = (if 4300 < length ds then Inl ValueError else Inr (int_of_digits ds))"

text \<open>The number of rows: \<^verbatim>\<open>int(match.group(1)) if match else 10\<close>.\<close>

definition row_count :: "string \<Rightarrow> error + nat" where
  "row_count prompt = (case search_digits prompt of Some ds \<Rightarrow> py_int ds | None \<Rightarrow> Inr 10)"

definition departments :: "string list" where
  "departments = [''HR'', ''IT'', ''Finance'', ''Marketing'']"

definition courses :: "string list" where
  "courses = [''Math'', ''CS'', ''Physics'', ''Biology'']"

text \<open>
  The \<open>if\<close>/\<open>elif\<close>/\<open>else\<close> that chooses the schema: the headers, the \<open>n\<close> rows, the file
  name, and the number of draws the rows have used. \<open>r k\<close> is the \<open>k\<close>-th draw from here
  on; a row of the first two schemas draws twice, the choice before the number, a row of
  the third once.
\<close>

definition excel_table ::
  "(nat \<Rightarrow> nat) \<Rightarrow> nat \<Rightarrow> string \<Rightarrow> string list \<times> cell list list \<times> string \<times> nat" where
  "excel_table r n prompt =
     (if sublist ''employee'' (lower prompt) then
        ([''ID'', ''Name'', ''Department'', ''Salary''],
         map (\<lambda>i. [Num (i + 1), Str (''Employee_'' @ str_of_nat (i + 1)),
                    Str (choice departments (r (2 * i))),
                    Num (randint 30000 100000 (r (2 * i + 1)))]) [0..<n],
         ''employees.xlsx'', 2 * n)
      else if sublist ''student'' (lower prompt) then
        ([''Roll No'', ''Name'', ''Course'', ''Marks''],
         map (\<lambda>i. [Num (i + 1), Str (''Student_'' @ str_of_nat (i + 1)),
                    Str (choice courses (r (2 * i))),
                    Num (randint 40 100 (r (2 * i + 1)))]) [0..<n],
         ''students.xlsx'', 2 * n)
      else
        ([''ID'', ''Name'', ''Value''],
         map (\<lambda>i. [Num (i + 1), Str (''Item_'' @ str_of_nat (i + 1)),
                    Num (randint 1 500 (r i))]) [0..<n],
         ''data.xlsx'', n))"

text \<open>
  The folder is made first; an exception of the conversion ends the handler there, before
  a schema is chosen or a file written. Otherwise the sheet holds the header row and then
  the rows, in order. No request is made.
\<close>

definition save_excel :: "env \<Rightarrow> string \<Rightarrow> string \<Rightarrow> world \<Rightarrow> (error + unit) \<times> world" where
  "save_excel e prompt output_folder w =
     (let w1 = makedirs output_folder w in
      case row_count prompt of
        Inl err \<Rightarrow> (Inl err, w1)
      | Inr n \<Rightarrow>
          (let (headers, rows, filename, used) = excel_table (\<lambda>k. rnd e (draws w1 + k)) n prompt;
               file_path = path_join output_folder filename;
               w2 = write_file file_path (Workbook (map Str headers # rows))
                      (w1\<lparr>draws := draws w1 + used\<rparr>)
           in (Inr (), py_print (ExcelCreated file_path) w2)))"

subsection \<open>\<open>save_doc\<close> and \<open>save_pdf\<close>\<close>

definition save_doc :: "env \<Rightarrow> string \<Rightarrow> string \<Rightarrow> world \<Rightarrow> (error + unit) \<times> world" where
  "save_doc e prompt output_folder w =
     (case generate_content e (doc_instruction prompt) (makedirs output_folder w) of
        (Inl err, w1) \<Rightarrow> (Inl err, w1)
      | (Inr response, w1) \<Rightarrow>
          (let file_path = path_join output_folder ''document.docx'';
               w2 = write_file file_path (WordDoc prompt (strip response)) w1
           in (Inr (), py_print (DocSaved file_path) w2)))"

definition save_pdf :: "env \<Rightarrow> string \<Rightarrow> string \<Rightarrow> world \<Rightarrow> (error + unit) \<times> world" where
  "save_pdf e prompt output_folder w =
     (case generate_content e (pdf_instruction prompt) (makedirs output_folder w) of
        (Inl err, w1) \<Rightarrow> (Inl err, w1)
      | (Inr response, w1) \<Rightarrow>
          (let file_path = path_join output_folder ''report.pdf'';
               elements = [Heading1 prompt, Spacer]
                 @ concat (map (\<lambda>para. [Normal para, Spacer]) (split_lines (strip response)));
               w2 = write_file file_path (PdfDoc elements) w1
           in (Inr (), py_print (PdfSaved file_path) w2)))"

subsection \<open>\<open>save_ppt\<close>\<close>

text \<open>
  The body of a parsed slide: of the lines of the stripped content, those that start with
  \<open>-\<close> once stripped, each without that first character and stripped again. The first sets
  the text of the body, the others are added as paragraphs.
\<close>

definition bullets :: "string \<Rightarrow> string list" where
  "bullets content =
     map (\<lambda>line. strip (drop 1 (strip line)))
       (filter (\<lambda>line. prefix ''-'' (strip line)) (split_lines (strip content)))"

definition save_ppt :: "env \<Rightarrow> string \<Rightarrow> string \<Rightarrow> world \<Rightarrow> (error + unit) \<times> world" where
  "save_ppt e prompt output_folder w =
     (case generate_content e (ppt_instruction prompt) (makedirs output_folder w) of
        (Inl err, w1) \<Rightarrow> (Inl err, w1)
      | (Inr response, w1) \<Rightarrow>
          (let file_path = path_join output_folder ''slides.pptx'';
               slides_text = findall slide_re response;
               slides =
                 (if slides_text = [] then [Slide prompt [strip response]]
                  else map (\<lambda>(title, content). Slide (strip title) (bullets content)) slides_text);
               w2 = write_file file_path (Deck slides) w1
           in (Inr (), py_print (PptSaved file_path) w2)))"

section \<open>Dispatcher\<close>

definition handle_task :: "env \<Rightarrow> string \<Rightarrow> string \<Rightarrow> world \<Rightarrow> (error + unit) \<times> world" where
  "handle_task e task output_folder w =
     (let t = lower task in
      if sublist ''article'' t then save_articles e task output_folder w
      else if sublist ''note'' t then save_notes e task output_folder w
      else if sublist ''q'' t \<and> sublist ''a'' t then save_qna e task output_folder w
      else if sublist ''excel'' t \<or> sublist ''spreadsheet'' t then save_excel e task output_folder w
      else if sublist ''doc'' t \<or> sublist ''word'' t then save_doc e task output_folder w
      else if sublist ''pdf'' t then save_pdf e task output_folder w
      else if sublist ''ppt'' t \<or> sublist ''presentation'' t \<or> sublist ''slides'' t
        then save_ppt e task output_folder w
      else (Inr (), py_print Unsupported w))"

section \<open>Agent loop\<close>

text \<open>
  The loop of \<open>ai_agent\<close> over the lines typed at the terminal. \<open>input\<close> prints its prompt
  and returns the next line, or raises \<open>EOFError\<close> when there is none; an exception of a
  handler ends the loop, since nothing catches it.
\<close>

fun agent_loop :: "env \<Rightarrow> string list \<Rightarrow> world \<Rightarrow> (error + unit) \<times> world" where
  "agent_loop e [] w = (Inl EOFError, py_print AskTask w)"
| "agent_loop e [task] w =
     (if lower task = ''exit'' then (Inr (), py_print AskTask w)
      else (Inl EOFError, py_print AskFolder (py_print AskTask w)))"
| "agent_loop e (task # line # rest) w =
     (if lower task = ''exit'' then (Inr (), py_print AskTask w)
      else
        (let output_folder = (if strip line = [] then ''outputs'' else strip line) in
         case handle_task e task output_folder (py_print AskFolder (py_print AskTask w)) of
           (Inl err, w1) \<Rightarrow> (Inl err, w1)
         | (Inr u, w1) \<Rightarrow> agent_loop e rest w1))"

definition ai_agent :: "env \<Rightarrow> string list \<Rightarrow> world \<Rightarrow> (error + unit) \<times> world" where
  "ai_agent e lines w = agent_loop e lines (py_print Ready w)"

section \<open>The dispatcher as the specification words it\<close>

text \<open>
  The specification describes the dispatcher as an ordered list of rules, each a test of the
  lower-cased task and the handler it selects; the first rule whose test holds decides.
  This definition follows those words, to be compared with \<open>handle_task\<close>.
\<close>

datatype handler = Articles | Notes | QnA | Excel | Doc | Pdf | Ppt

definition rules :: "((string \<Rightarrow> bool) \<times> handler) list" where
  "rules =
     [(\<lambda>t. sublist ''article'' t, Articles),
      (\<lambda>t. sublist ''note'' t, Notes),
      (\<lambda>t. sublist ''q'' t \<and> sublist ''a'' t, QnA),
      (\<lambda>t. sublist ''excel'' t \<or> sublist ''spreadsheet'' t, Excel),
      (\<lambda>t. sublist ''doc'' t \<or> sublist ''word'' t, Doc),
      (\<lambda>t. sublist ''pdf'' t, Pdf),
      (\<lambda>t. sublist ''ppt'' t \<or> sublist ''presentation'' t \<or> sublist ''slides'' t, Ppt)]"

definition select_handler :: "string \<Rightarrow> handler option" where
  "select_handler task = map_option snd (find (\<lambda>rule. fst rule (lower task)) rules)"

fun run_handler :: "handler \<Rightarrow> env \<Rightarrow> string \<Rightarrow> string \<Rightarrow> world \<Rightarrow> (error + unit) \<times> world" where
  "run_handler Articles = save_articles"
| "run_handler Notes = save_notes"
| "run_handler QnA = save_qna"
| "run_handler Excel = save_excel"
| "run_handler Doc = save_doc"
| "run_handler Pdf = save_pdf"
| "run_handler Ppt = save_ppt"

section \<open>The integer of a digit run as the specification words it\<close>

text \<open>
  The specification speaks of the first integer found in the task text. This definition
  gives the integer a run of decimal digits denotes, by place value and with the ten
  digits listed, to be compared with the conversion \<open>int_of_digits\<close> of the embedding.
\<close>

definition digit_of :: "char \<Rightarrow> nat" where
  "digit_of c = length (takeWhile (\<lambda>d. d \<noteq> c) ''0123456789'')"

fun decimal_value :: "string \<Rightarrow> nat" where
  "decimal_value [] = 0"
| "decimal_value (c # cs) = digit_of c * 10 ^ length cs + decimal_value cs"

section \<open>Sample inputs\<close>

text \<open>
  A text service that answers every request with the same text, a random generator whose
  draws are all zero, and the world before anything has been written: the concrete inputs
  of the examples below.
\<close>

definition answering :: "string \<Rightarrow> env" where
  "answering response = \<lparr>service = (\<lambda>k instruction. Inr response), rnd = (\<lambda>k. 0)\<rparr>"

definition empty_world :: world where
  "empty_world = \<lparr>dirs = {}, files = Map.empty, console = [], requests = 0, draws = 0\<rparr>"

section \<open>What the patterns consume\<close>

text \<open>
  Each piece of a pattern returns a rest no longer than the text it was given, if its
  continuation does; a literal takes its own length off. So a match of either pattern is
  at least as long as its first literal, and \<open>findall\<close> always goes on with a shorter
  text.
\<close>

lemma lit_bound:
  assumes "lit p k s = Some r" and "\<And>s'. k s' = Some r \<Longrightarrow> length (snd r) \<le> length s'"
  shows "prefix p s \<and> length (snd r) + length p \<le> length s"
proof -
  have p: "prefix p s" and k: "k (drop (length p) s) = Some r"
    using assms(1) by (auto simp add: lit_def split: if_splits)
  have "length (snd r) \<le> length s - length p"
    using assms(2) [OF k] by simp
  moreover have "length p \<le> length s"
    using p by (rule prefix_length_le)
  ultimately show ?thesis using p by simp
qed

lemma lazy_star_bound:
  assumes "lazy_star cls k s = Some r"
    and "\<And>g s'. k g s' = Some r \<Longrightarrow> length (snd r) \<le> length s'"
  shows "length (snd r) \<le> length s"
  using assms
proof (induction s arbitrary: k)
  case Nil
  then have "k [] [] = Some r" by simp
  from Nil.prems(2) [OF this] show ?case .
next
  case (Cons c cs)
  show ?case
  proof (cases "k [] (c # cs)")
    case (Some r')
    then have "k [] (c # cs) = Some r" using Cons.prems(1) by simp
    then show ?thesis by (rule Cons.prems(2))
  next
    case None
    then have rec: "lazy_star cls (\<lambda>g. k (c # g)) cs = Some r"
      using Cons.prems(1) by (simp split: if_splits)
    have "length (snd r) \<le> length cs"
      using rec Cons.prems(2) by (rule Cons.IH)
    then show ?thesis by simp
  qed
qed

lemma greedy_star_bound:
  assumes "greedy_star cls k s = Some r"
    and "\<And>s'. k s' = Some r \<Longrightarrow> length (snd r) \<le> length s'"
  shows "length (snd r) \<le> length s"
  using assms
proof (induction s)
  case Nil
  then have "k [] = Some r" by simp
  from Nil.prems(2) [OF this] show ?case .
next
  case (Cons c cs)
  show ?case
  proof (cases "cls c \<and> greedy_star cls k cs = Some r")
    case True
    then have "length (snd r) \<le> length cs" using Cons.IH Cons.prems(2) by blast
    then show ?thesis by simp
  next
    case False
    then have "k (c # cs) = Some r"
      using Cons.prems(1) by (auto split: if_splits option.splits)
    then show ?thesis by (rule Cons.prems(2))
  qed
qed

lemma greedy_plus_bound:
  assumes "greedy_plus cls k s = Some r"
    and "\<And>s'. k s' = Some r \<Longrightarrow> length (snd r) \<le> length s'"
  shows "length (snd r) \<le> length s"
proof (cases s)
  case Nil
  then show ?thesis using assms(1) by (simp add: greedy_plus_def)
next
  case (Cons c cs)
  then have "greedy_star cls k cs = Some r"
    using assms(1) by (simp add: greedy_plus_def split: if_splits)
  then have "length (snd r) \<le> length cs" using assms(2) by (rule greedy_star_bound)
  then show ?thesis using Cons by simp
qed

lemma lookahead_bound:
  assumes "lookahead p k s = Some r"
    and "\<And>s'. k s' = Some r \<Longrightarrow> length (snd r) \<le> length s'"
  shows "length (snd r) \<le> length s"
  using assms by (auto simp add: lookahead_def split: if_splits)

lemma article_re_consumes:
  assumes "article_re s = Some (g, rest)"
  shows "length rest < length s"
proof -
  have "length (snd (g, rest)) + length ''ARTICLE START\<newline>'' \<le> length s"
    using assms unfolding article_re_def
    by (elim lit_bound [THEN conjunct2] lazy_star_bound lit_bound [THEN conjunct2, THEN add_leD1]) auto
  then show ?thesis by simp
qed

lemma slide_re_consumes:
  assumes "slide_re s = Some (g, rest)"
  shows "length rest < length s"
proof -
  have "length (snd (g, rest)) + length ''SLIDE'' \<le> length s"
    using assms unfolding slide_re_def
    by (elim lit_bound [THEN conjunct2] lazy_star_bound lit_bound [THEN conjunct2, THEN add_leD1]
        greedy_star_bound greedy_plus_bound lookahead_bound) auto
  then show ?thesis by simp
qed

text \<open>
  A pattern that starts with a literal finds nothing in a text that does not contain the
  literal: an answer without \<open>ARTICLE START\<close> and a newline has no article block, an
  answer without \<open>SLIDE\<close> no slide block.
\<close>

lemma findall_no_start:
  assumes "\<And>s'. re s' \<noteq> None \<Longrightarrow> prefix p s'" and "\<not> sublist p s"
  shows "findall re s = []"
  using assms(2)
proof (induction s)
  case Nil
  have "re [] = None"
  proof (rule ccontr)
    assume "re [] \<noteq> None"
    then have "prefix p []" by (rule assms(1))
    then have "p = []" by simp
    with Nil show False by simp
  qed
  then show ?case by (simp add: findall.simps)
next
  case (Cons c cs)
  have "\<not> prefix p (c # cs)" using Cons.prems by (simp add: sublist_Cons_right)
  then have none: "re (c # cs) = None" using assms(1) by blast
  have "\<not> sublist p cs" using Cons.prems by (simp add: sublist_Cons_right)
  then have "findall re cs = []" by (rule Cons.IH)
  then show ?case using none by (simp add: findall.simps [of re "c # cs"])
qed

lemma no_delimiter_no_article:
  "\<not> sublist ''ARTICLE START\<newline>'' s \<Longrightarrow> findall article_re s = []"
  by (rule findall_no_start [of article_re "''ARTICLE START\<newline>''"])
    (auto simp add: article_re_def lit_def split: if_splits)

lemma no_marker_no_slide:
  "\<not> sublist ''SLIDE'' s \<Longrightarrow> findall slide_re s = []"
  by (rule findall_no_start [of slide_re "''SLIDE''"])
    (auto simp add: slide_re_def lit_def split: if_splits)

section \<open>The sanitizer\<close>

lemma underscore_ok: "is_filename_char CHR ''_''"
  by (simp add: is_filename_char_def)

lemma sanitize_filename_chars: "list_all is_filename_char (sanitize_filename s)"
  unfolding sanitize_filename_def list_all_iff
  by (auto dest!: in_set_takeD simp: underscore_ok)

lemma sanitize_filename_length: "length (sanitize_filename s) = min 50 (length s)"
  by (simp add: sanitize_filename_def min.commute)

lemma sanitize_filename_nth:
  "i < length (sanitize_filename s) \<Longrightarrow>
     sanitize_filename s ! i = (if is_filename_char (s ! i) then s ! i else CHR ''_'')"
  by (simp add: sanitize_filename_def)

lemma sanitize_filename_id:
  "list_all is_filename_char s \<Longrightarrow> length s \<le> 50 \<Longrightarrow> sanitize_filename s = s"
  unfolding sanitize_filename_def list_all_iff
  by (simp add: map_idI)

text \<open>
  Claim C3. For every input string, the output of the sanitizer holds only characters of
  \<open>[A-Za-z0-9_-]\<close> and is at most 50 characters long: it is the first 50 characters of the
  input, with every character outside the class replaced by an underscore. An input that
  holds only such characters and is at most 50 long is returned unchanged.
\<close>

theorem sanitize_filename_spec:
  "list_all is_filename_char (sanitize_filename s)
   \<and> length (sanitize_filename s) \<le> 50
   \<and> length (sanitize_filename s) = min 50 (length s)
   \<and> (\<forall>i < length (sanitize_filename s).
        sanitize_filename s ! i = (if is_filename_char (s ! i) then s ! i else CHR ''_''))
   \<and> (list_all is_filename_char s \<and> length s \<le> 50 \<longrightarrow> sanitize_filename s = s)"
  using sanitize_filename_chars [of s] sanitize_filename_length [of s]
    sanitize_filename_nth [of _ s] sanitize_filename_id [of s]
  by simp

text \<open>
  The theorem at two inputs: a valid name comes back unchanged, and the space of \<open>a b\<close>
  becomes an underscore.
\<close>

theorem sanitize_filename_spec_witness:
  "list_all is_filename_char ''report-2024_v1'' \<and> length ''report-2024_v1'' \<le> 50
   \<and> sanitize_filename ''report-2024_v1'' = ''report-2024_v1''
   \<and> (1::nat) < length (sanitize_filename ''a b'') \<and> \<not> is_filename_char (''a b'' ! 1)
   \<and> sanitize_filename ''a b'' ! 1 = CHR ''_''"
proof -
  have valid: "list_all is_filename_char ''report-2024_v1'' \<and> length ''report-2024_v1'' \<le> 50"
    by code_simp
  have len: "(1::nat) < length (sanitize_filename ''a b'')"
    by code_simp
  have bad: "\<not> is_filename_char (''a b'' ! 1)"
    by code_simp
  from valid len bad sanitize_filename_spec [of "''report-2024_v1''"]
    sanitize_filename_spec [of "''a b''"]
  show ?thesis by simp
qed

section \<open>The dispatcher\<close>

lemma select_handler_chain:
  "select_handler task =
     (let t = lower task in
      if sublist ''article'' t then Some Articles
      else if sublist ''note'' t then Some Notes
      else if sublist ''q'' t \<and> sublist ''a'' t then Some QnA
      else if sublist ''excel'' t \<or> sublist ''spreadsheet'' t then Some Excel
      else if sublist ''doc'' t \<or> sublist ''word'' t then Some Doc
      else if sublist ''pdf'' t then Some Pdf
      else if sublist ''ppt'' t \<or> sublist ''presentation'' t \<or> sublist ''slides'' t then Some Ppt
      else None)"
  by (simp add: select_handler_def rules_def Let_def)

lemma handle_task_select:
  "handle_task e task output_folder w =
     (case select_handler task of
        Some h \<Rightarrow> run_handler h e task output_folder w
      | None \<Rightarrow> (Inr (), py_print Unsupported w))"
  by (simp add: handle_task_def select_handler_chain Let_def)

lemma qna_example_tests:
  "sublist ''q'' (lower ''Generate 5 question and answer pairs'')
   \<and> sublist ''a'' (lower ''Generate 5 question and answer pairs'')
   \<and> \<not> sublist ''article'' (lower ''Generate 5 question and answer pairs'')
   \<and> \<not> sublist ''note'' (lower ''Generate 5 question and answer pairs'')
   \<and> \<not> sublist ''excel'' (lower ''Generate 5 question and answer pairs'')
   \<and> \<not> sublist ''pdf'' (lower ''Generate 5 question and answer pairs'')"
  by code_simp

text \<open>
  Claim C1. For every task, the dispatcher tests the lower-cased task for the keywords in
  the order article, note, (q and a), excel or spreadsheet, doc or word, pdf, ppt or
  presentation or slides, and runs the handler of the first rule that matches and no
  other. For the task \<open>Generate 5 question and answer pairs\<close> that is the Q&A handler:
  the letters \<open>q\<close> and \<open>a\<close> both occur in it, while \<open>excel\<close> and \<open>pdf\<close> do not.
\<close>

theorem handle_task_first_match:
  "handle_task e task output_folder w =
     (case select_handler task of
        Some h \<Rightarrow> run_handler h e task output_folder w
      | None \<Rightarrow> (Inr (), py_print Unsupported w))
   \<and> select_handler ''Generate 5 question and answer pairs'' = Some QnA
   \<and> handle_task e ''Generate 5 question and answer pairs'' output_folder w =
       save_qna e ''Generate 5 question and answer pairs'' output_folder w
   \<and> sublist ''q'' (lower ''Generate 5 question and answer pairs'')
   \<and> sublist ''a'' (lower ''Generate 5 question and answer pairs'')
   \<and> \<not> sublist ''excel'' (lower ''Generate 5 question and answer pairs'')
   \<and> \<not> sublist ''pdf'' (lower ''Generate 5 question and answer pairs'')"
proof -
  have sel: "select_handler ''Generate 5 question and answer pairs'' = Some QnA"
    using qna_example_tests by (simp add: select_handler_chain Let_def)
  show ?thesis
    using qna_example_tests sel
      handle_task_select [of e "''Generate 5 question and answer pairs''" output_folder w]
    by (simp add: handle_task_select)
qed

text \<open>
  The theorem at a task in which two rules match and the keyword is in capitals: the
  earlier rule, article, decides.
\<close>

theorem handle_task_first_match_witness:
  "select_handler ''Write an ARTICLE about tea and notes'' = Some Articles
   \<and> handle_task (answering ''Tea.'') ''Write an ARTICLE about tea and notes'' ''out'' empty_world =
       save_articles (answering ''Tea.'') ''Write an ARTICLE about tea and notes'' ''out'' empty_world
   \<and> handle_task (answering ''Tea.'') ''Generate 5 question and answer pairs'' ''out'' empty_world =
       save_qna (answering ''Tea.'') ''Generate 5 question and answer pairs'' ''out'' empty_world"
proof -
  have sel: "select_handler ''Write an ARTICLE about tea and notes'' = Some Articles"
    by code_simp
  from sel
    handle_task_first_match [of "answering ''Tea.''" "''Write an ARTICLE about tea and notes''" "''out''" empty_world]
  show ?thesis by simp
qed

section \<open>Stripping, and the sample text service\<close>

lemma dropWhile_rev_strip: "dropWhile is_space (rev (dropWhile is_space (rev (dropWhile is_space s)))) = rev (dropWhile is_space (rev (dropWhile is_space s)))"
proof -
  define a where "a = dropWhile is_space s"
  define b where "b = dropWhile is_space (rev a)"
  have "dropWhile is_space (rev b) = rev b"
  proof (cases "b = []")
    case True
    then show ?thesis by simp
  next
    case False
    obtain pre where pre: "rev a = pre @ b"
      unfolding b_def by (metis takeWhile_dropWhile_id)
    have "a \<noteq> []" using False pre by auto
    then have "\<not> is_space (hd a)" unfolding a_def by (rule hd_dropWhile)
    moreover have "hd (rev b) = hd a"
    proof -
      have "last (rev a) = last b" using pre False by simp
      moreover have "last (rev a) = hd a" using \<open>a \<noteq> []\<close> by (simp add: last_rev)
      moreover have "hd (rev b) = last b" using False by (simp add: hd_rev)
      ultimately show ?thesis by simp
    qed
    ultimately show ?thesis using False by (cases "rev b") auto
  qed
  then show ?thesis unfolding a_def b_def .
qed

lemma strip_idem: "strip (strip s) = strip s"
  unfolding strip_def by (simp add: dropWhile_rev_strip dropWhile_idem)

lemma answering_service: "service (answering response) k instruction = Inr response"
  by (simp add: answering_def)

section \<open>The notes handler\<close>

lemma save_notes_result:
  assumes "service e (requests w) (notes_instruction prompt) = Inr response"
  shows "save_notes e prompt output_folder w =
      (Inr (), w\<lparr>dirs := insert output_folder (dirs w),
                files := (files w)(path_join output_folder ''notes.txt'' \<mapsto> TextFile (strip response)),
                console := console w @ [NotesSaved (path_join output_folder ''notes.txt'')],
                requests := Suc (requests w)\<rparr>)"
  using assms
  by (simp add: save_notes_def generate_content_def makedirs_def write_file_def py_print_def Let_def)

lemma notes_task_route:
  "handle_task e ''Write study notes on thermodynamics'' output_folder w =
     save_notes e ''Write study notes on thermodynamics'' output_folder w"
proof -
  have "\<not> sublist ''article'' (lower ''Write study notes on thermodynamics'')
      \<and> sublist ''note'' (lower ''Write study notes on thermodynamics'')"
    by code_simp
  then show ?thesis by (simp add: handle_task_def Let_def)
qed

text \<open>
  Claim C5, as amended. When the text service answers, the notes handler writes exactly
  one file, \<open>notes.txt\<close> in the output folder, and its content is the generated text with
  the whitespace at its two ends removed; the notes task of the specification is routed to
  this handler.
\<close>

theorem save_notes_stripped:
  assumes "service e (requests w) (notes_instruction prompt) = Inr response"
  shows "save_notes e prompt output_folder w =
      (Inr (), w\<lparr>dirs := insert output_folder (dirs w),
                files := (files w)(path_join output_folder ''notes.txt'' \<mapsto> TextFile (strip response)),
                console := console w @ [NotesSaved (path_join output_folder ''notes.txt'')],
                requests := Suc (requests w)\<rparr>)
    \<and> handle_task e ''Write study notes on thermodynamics'' output_folder w =
        save_notes e ''Write study notes on thermodynamics'' output_folder w"
  using save_notes_result [OF assms] notes_task_route by simp

text \<open>The theorem for a generated text that ends with a newline.\<close>

theorem save_notes_stripped_witness:
  "service (answering ''Heat flows.\<newline>'') (requests empty_world)
      (notes_instruction ''Write study notes on thermodynamics'') = Inr ''Heat flows.\<newline>''
   \<and> handle_task (answering ''Heat flows.\<newline>'') ''Write study notes on thermodynamics'' ''out'' empty_world =
      (Inr (), empty_world\<lparr>dirs := insert ''out'' (dirs empty_world),
                files := (files empty_world)(''out/notes.txt'' \<mapsto> TextFile ''Heat flows.''),
                console := console empty_world @ [NotesSaved ''out/notes.txt''],
                requests := Suc (requests empty_world)\<rparr>)"
proof -
  have s: "strip ''Heat flows.\<newline>'' = ''Heat flows.''"
    by code_simp
  have p: "path_join ''out'' ''notes.txt'' = ''out/notes.txt''"
    by code_simp
  have a: "service (answering ''Heat flows.\<newline>'') (requests empty_world)
      (notes_instruction ''Write study notes on thermodynamics'') = Inr ''Heat flows.\<newline>''"
    by (rule answering_service)
  from save_notes_stripped [OF a, of "''out''"] a show ?thesis
    by (simp add: s p)
qed

text \<open>
  The claim as stated, that the content is the generated text verbatim, fails there: the
  file holds the text without its final newline.
\<close>

theorem notes_verbatim_counterexample:
  "files (snd (save_notes (answering ''Heat flows.\<newline>'') ''Write study notes on thermodynamics''
       ''out'' empty_world)) ''out/notes.txt'' = Some (TextFile ''Heat flows.'')
   \<and> files (snd (save_notes (answering ''Heat flows.\<newline>'') ''Write study notes on thermodynamics''
       ''out'' empty_world)) ''out/notes.txt'' \<noteq> Some (TextFile ''Heat flows.\<newline>'')"
proof -
  have s: "strip ''Heat flows.\<newline>'' = ''Heat flows.''"
    by code_simp
  have p: "path_join ''out'' ''notes.txt'' = ''out/notes.txt''"
    by code_simp
  show ?thesis
    by (simp add: save_notes_result [OF answering_service] s p)
qed

section \<open>The slide handler when nothing is parsed\<close>

lemma save_ppt_result:
  assumes "service e (requests w) (ppt_instruction prompt) = Inr response"
    and "findall slide_re response = []"
  shows "save_ppt e prompt output_folder w =
      (Inr (), w\<lparr>dirs := insert output_folder (dirs w),
                files := (files w)(path_join output_folder ''slides.pptx'' \<mapsto>
                  Deck [Slide prompt [strip response]]),
                console := console w @ [PptSaved (path_join output_folder ''slides.pptx'')],
                requests := Suc (requests w)\<rparr>)"
  using assms
  by (simp add: save_ppt_def generate_content_def makedirs_def write_file_def py_print_def Let_def)

text \<open>
  Claim C7, as amended. When the text service answers and the slide pattern finds no
  block in the answer, the deck written to \<open>slides.pptx\<close> has exactly one slide, whose
  title is the task text and whose body is the answer with the whitespace at its two ends
  removed.
\<close>

theorem save_ppt_fallback:
  assumes "service e (requests w) (ppt_instruction prompt) = Inr response"
    and "findall slide_re response = []"
  shows "save_ppt e prompt output_folder w =
      (Inr (), w\<lparr>dirs := insert output_folder (dirs w),
                files := (files w)(path_join output_folder ''slides.pptx'' \<mapsto>
                  Deck [Slide prompt [strip response]]),
                console := console w @ [PptSaved (path_join output_folder ''slides.pptx'')],
                requests := Suc (requests w)\<rparr>)"
  using assms by (rule save_ppt_result)

text \<open>The theorem for an answer without any slide block, a space before and a newline after it.\<close>

theorem save_ppt_fallback_witness:
  "service (answering '' Tea is a drink.\<newline>'') (requests empty_world)
      (ppt_instruction ''Make slides on tea'') = Inr '' Tea is a drink.\<newline>''
   \<and> findall slide_re '' Tea is a drink.\<newline>'' = []
   \<and> save_ppt (answering '' Tea is a drink.\<newline>'') ''Make slides on tea'' ''out'' empty_world =
      (Inr (), empty_world\<lparr>dirs := insert ''out'' (dirs empty_world),
                files := (files empty_world)(''out/slides.pptx'' \<mapsto>
                  Deck [Slide ''Make slides on tea'' [''Tea is a drink.'']]),
                console := console empty_world @ [PptSaved ''out/slides.pptx''],
                requests := Suc (requests empty_world)\<rparr>)"
proof -
  have s: "strip '' Tea is a drink.\<newline>'' = ''Tea is a drink.''"
    by code_simp
  have p: "path_join ''out'' ''slides.pptx'' = ''out/slides.pptx''"
    by code_simp
  have f: "findall slide_re '' Tea is a drink.\<newline>'' = []"
    by code_simp
  have a: "service (answering '' Tea is a drink.\<newline>'') (requests empty_world)
      (ppt_instruction ''Make slides on tea'') = Inr '' Tea is a drink.\<newline>''"
    by (rule answering_service)
  from save_ppt_fallback [OF a f, of "''out''"] a f show ?thesis
    by (simp add: s p)
qed

text \<open>
  The claim as stated, that the body is the full raw answer, fails there: the body is the
  answer without the leading space and the final newline.
\<close>

theorem slide_raw_body_counterexample:
  "findall slide_re '' Tea is a drink.\<newline>'' = []
   \<and> files (snd (save_ppt (answering '' Tea is a drink.\<newline>'') ''Make slides on tea'' ''out''
        empty_world)) ''out/slides.pptx'' = Some (Deck [Slide ''Make slides on tea'' [''Tea is a drink.'']])
   \<and> files (snd (save_ppt (answering '' Tea is a drink.\<newline>'') ''Make slides on tea'' ''out''
        empty_world)) ''out/slides.pptx'' \<noteq> Some (Deck [Slide ''Make slides on tea'' ['' Tea is a drink.\<newline>'']])"
proof -
  have s: "strip '' Tea is a drink.\<newline>'' = ''Tea is a drink.''"
    by code_simp
  have p: "path_join ''out'' ''slides.pptx'' = ''out/slides.pptx''"
    by code_simp
  have f: "findall slide_re '' Tea is a drink.\<newline>'' = []"
    by code_simp
  show ?thesis
    by (simp add: save_ppt_result [OF answering_service f] s p f)
qed

section \<open>The article handler\<close>

lemma generated_article_title:
  "safe_title 1 ''Generated_Article'' = ''Generated_Article''
   \<and> strip ''Generated_Article'' = ''Generated_Article''"
  by code_simp

lemma generated_article_title_Suc:
  "safe_title (Suc 0) ''Generated_Article'' = ''Generated_Article''"
  using generated_article_title by simp

lemma generated_article_text:
  "article_text ''Generated_Article'' (strip response) =
     ''Generated_Article\<newline>=================\<newline>\<newline>'' @ strip response"
  by (simp add: article_text_def generated_article_title strip_idem)

lemma save_articles_result:
  assumes "service e (requests w) (articles_instruction prompt) = Inr response"
  shows "save_articles e prompt output_folder w =
      (Inr (), write_articles output_folder 1
         (if findall article_re (strip response) = [] then [(''Generated_Article'', strip response)]
          else findall article_re (strip response))
         (w\<lparr>dirs := insert output_folder (dirs w), requests := Suc (requests w)\<rparr>))"
  using assms
  by (simp add: save_articles_def generate_content_def makedirs_def Let_def)

lemma fallback_article_written:
  assumes "service e (requests w) (articles_instruction prompt) = Inr response"
    and "findall article_re (strip response) = []"
  shows "save_articles e prompt output_folder w =
      (Inr (), w\<lparr>dirs := insert output_folder (dirs w),
                files := (files w)(path_join output_folder ''Generated_Article.txt'' \<mapsto>
                  TextFile (''Generated_Article\<newline>=================\<newline>\<newline>'' @ strip response)),
                console := console w @ [Saved (path_join output_folder ''Generated_Article.txt'')],
                requests := Suc (requests w)\<rparr>)"
  using assms(2)
  by (simp add: save_articles_result [OF assms(1)] article_path_def generated_article_title_Suc
      generated_article_text write_file_def py_print_def Let_def)

text \<open>
  Claim C6, as amended. When the text service answers and the article pattern finds no
  block in the stripped answer, the handler does not fail: it takes the stripped answer as
  one article under the placeholder title \<open>Generated_Article\<close> and writes exactly one
  file, \<open>Generated_Article.txt\<close>, which begins with that title line and its underline.
\<close>

theorem save_articles_fallback:
  assumes "service e (requests w) (articles_instruction prompt) = Inr response"
    and "findall article_re (strip response) = []"
  shows "save_articles e prompt output_folder w =
      (Inr (), w\<lparr>dirs := insert output_folder (dirs w),
                files := (files w)(path_join output_folder ''Generated_Article.txt'' \<mapsto>
                  TextFile (''Generated_Article\<newline>=================\<newline>\<newline>'' @ strip response)),
                console := console w @ [Saved (path_join output_folder ''Generated_Article.txt'')],
                requests := Suc (requests w)\<rparr>)"
  using assms by (rule fallback_article_written)

text \<open>The theorem for an answer without any delimiter.\<close>

theorem save_articles_fallback_witness:
  "service (answering ''Tea is a drink.\<newline>'') (requests empty_world)
      (articles_instruction ''Write an article on tea'') = Inr ''Tea is a drink.\<newline>''
   \<and> findall article_re (strip ''Tea is a drink.\<newline>'') = []
   \<and> save_articles (answering ''Tea is a drink.\<newline>'') ''Write an article on tea'' ''out'' empty_world =
      (Inr (), empty_world\<lparr>dirs := insert ''out'' (dirs empty_world),
                files := (files empty_world)(''out/Generated_Article.txt'' \<mapsto>
                  TextFile ''Generated_Article\<newline>=================\<newline>\<newline>Tea is a drink.''),
                console := console empty_world @ [Saved ''out/Generated_Article.txt''],
                requests := Suc (requests empty_world)\<rparr>)"
proof -
  have s: "strip ''Tea is a drink.\<newline>'' = ''Tea is a drink.''"
    by code_simp
  have p: "path_join ''out'' ''Generated_Article.txt'' = ''out/Generated_Article.txt''"
    by code_simp
  have f: "findall article_re (strip ''Tea is a drink.\<newline>'') = []"
    by code_simp
  have a: "service (answering ''Tea is a drink.\<newline>'') (requests empty_world)
      (articles_instruction ''Write an article on tea'') = Inr ''Tea is a drink.\<newline>''"
    by (rule answering_service)
  from save_articles_fallback [OF a f, of "''out''"] a f show ?thesis
    by (simp add: s p)
qed

lemma untitled_example:
  "findall article_re (strip ''Tea is a drink.\<newline>'') = []
   \<and> strip ''Tea is a drink.\<newline>'' = ''Tea is a drink.''
   \<and> path_join ''out'' ''Generated_Article.txt'' = ''out/Generated_Article.txt''
   \<and> article_path ''out'' 1 [] = ''out/Article_1.txt''"
  by code_simp

text \<open>
  The claim as stated, an untitled article holding the entire answer, fails there: the one
  file is \<open>Generated_Article.txt\<close>, it begins with the title line \<open>Generated_Article\<close>
  and its underline, and it holds the answer without its final newline; the file an
  article without a title would be written to, \<open>Article_1.txt\<close>, does not exist.
\<close>

theorem untitled_article_counterexample:
  "findall article_re (strip ''Tea is a drink.\<newline>'') = []
   \<and> files (snd (save_articles (answering ''Tea is a drink.\<newline>'') ''Write an article on tea'' ''out''
        empty_world)) ''out/Generated_Article.txt'' =
       Some (TextFile ''Generated_Article\<newline>=================\<newline>\<newline>Tea is a drink.'')
   \<and> files (snd (save_articles (answering ''Tea is a drink.\<newline>'') ''Write an article on tea'' ''out''
        empty_world)) ''out/Generated_Article.txt'' \<noteq> Some (TextFile ''Tea is a drink.\<newline>'')
   \<and> files (snd (save_articles (answering ''Tea is a drink.\<newline>'') ''Write an article on tea'' ''out''
        empty_world)) ''out/Article_1.txt'' = None
   \<and> files (write_articles ''out'' 1 [([], ''Tea is a drink.\<newline>'')] empty_world) ''out/Article_1.txt'' \<noteq> None"
proof -
  have parse: "findall article_re (strip ''Tea is a drink.\<newline>'') = []"
    and s: "strip ''Tea is a drink.\<newline>'' = ''Tea is a drink.''"
    and p: "path_join ''out'' ''Generated_Article.txt'' = ''out/Generated_Article.txt''"
    and q: "article_path ''out'' 1 [] = ''out/Article_1.txt''"
    using untitled_example by blast+
  note r = fallback_article_written [where w = empty_world and output_folder = "''out''"
      and prompt = "''Write an article on tea''", OF answering_service parse]
  have untitled: "files (write_articles ''out'' 1 [([], ''Tea is a drink.\<newline>'')] empty_world) ''out/Article_1.txt'' \<noteq> None"
    using q by (simp add: Let_def write_file_def py_print_def del: One_nat_def)
  show ?thesis
    unfolding r using parse untitled by (simp add: s p empty_world_def)
qed

section \<open>The value of a digit run\<close>

text \<open>
  On a run of decimal digits the conversion of the embedding gives the integer the run
  denotes by place value.
\<close>

lemma digit_chars: "map char_of [48, 49, 50, 51, 52, 53, 54, 55, 56, 57 :: nat] = ''0123456789''"
  by code_simp

lemma is_digit_mem: "is_digit c \<Longrightarrow> c \<in> set ''0123456789''"
proof -
  assume "is_digit c"
  then have b: "48 \<le> (of_char c :: nat) \<and> (of_char c :: nat) \<le> 57"
    by (simp add: is_digit_def less_eq_char_def)
  then have "(of_char c :: nat) \<in> set [48, 49, 50, 51, 52, 53, 54, 55, 56, 57]"
    by (simp only: set_simps insert_iff empty_iff) arith
  then have "char_of (of_char c :: nat) \<in> set (map char_of [48, 49, 50, 51, 52, 53, 54, 55, 56, 57 :: nat])"
    by (simp only: set_map) (rule imageI)
  then show ?thesis unfolding digit_chars by simp
qed

lemma digit_val_table: "list_all (\<lambda>c. digit_val c = digit_of c) ''0123456789''"
  by code_simp

lemma digit_val_digit_of: "is_digit c \<Longrightarrow> digit_val c = digit_of c"
  using is_digit_mem [of c] digit_val_table unfolding list_all_iff by blast

lemma foldl_decimal:
  "list_all is_digit ds \<Longrightarrow>
   foldl (\<lambda>n c. 10 * n + digit_val c) a ds = a * 10 ^ length ds + decimal_value ds"
proof (induction ds arbitrary: a)
  case Nil
  then show ?case by simp
next
  case (Cons c cs)
  then have "is_digit c" and "list_all is_digit cs" by simp_all
  then show ?case using Cons.IH [of "10 * a + digit_val c"]
    by (simp add: digit_val_digit_of algebra_simps)
qed

lemma int_of_digits_decimal: "list_all is_digit ds \<Longrightarrow> int_of_digits ds = decimal_value ds"
  using foldl_decimal [of ds 0] by (simp add: int_of_digits_def)

lemma decimal_value_zeros: "decimal_value (replicate n CHR ''0'' @ ds) = decimal_value ds"
proof -
  have "digit_of CHR ''0'' = 0" by (simp add: digit_of_def)
  then show ?thesis by (induction n) simp_all
qed

section \<open>The spreadsheet handler\<close>

lemma search_digits_none:
  "list_all (\<lambda>c. \<not> is_digit c) s \<Longrightarrow> search_digits s = None"
proof -
  assume "list_all (\<lambda>c. \<not> is_digit c) s"
  then have h: "dropWhile (\<lambda>c. \<not> is_digit c) s = []"
    by (simp add: list_all_iff)
  show ?thesis unfolding search_digits_def h by simp
qed

lemma search_digits_first:
  assumes "list_all (\<lambda>c. \<not> is_digit c) pre" and "ds \<noteq> []" and "list_all is_digit ds"
    and "takeWhile is_digit post = []"
  shows "search_digits (pre @ ds @ post) = Some ds"
proof -
  obtain d r where ds: "ds = d # r" using assms(2) by (cases ds) auto
  have d: "is_digit d" using assms(3) ds by simp
  have "dropWhile (\<lambda>c. \<not> is_digit c) (pre @ ds @ post) = ds @ post"
    using assms(1) d ds by (simp add: list_all_iff)
  moreover have "takeWhile is_digit (ds @ post) = ds"
    using assms(3,4) by (simp add: list_all_iff)
  ultimately show ?thesis
    using ds by (simp add: search_digits_def)
qed

lemma row_count_default: "list_all (\<lambda>c. \<not> is_digit c) s \<Longrightarrow> row_count s = Inr 10"
  by (simp add: row_count_def search_digits_none)

lemma row_count_first:
  "list_all (\<lambda>c. \<not> is_digit c) pre \<Longrightarrow> ds \<noteq> [] \<Longrightarrow> list_all is_digit ds \<Longrightarrow>
   takeWhile is_digit post = [] \<Longrightarrow> length ds \<le> 4300 \<Longrightarrow>
   row_count (pre @ ds @ post) = Inr (decimal_value ds)"
  by (simp add: row_count_def search_digits_first py_int_def int_of_digits_decimal)

lemma row_count_long:
  "list_all (\<lambda>c. \<not> is_digit c) pre \<Longrightarrow> ds \<noteq> [] \<Longrightarrow> list_all is_digit ds \<Longrightarrow>
   takeWhile is_digit post = [] \<Longrightarrow> 4300 < length ds \<Longrightarrow>
   row_count (pre @ ds @ post) = Inl ValueError"
  by (simp add: row_count_def search_digits_first py_int_def)

lemma excel_table_length:
  "excel_table r n prompt = (headers, rows, filename, used) \<Longrightarrow> length rows = n"
  by (auto simp add: excel_table_def split: if_splits)

lemma save_excel_result:
  assumes "row_count prompt = Inr n"
    and "excel_table (\<lambda>k. rnd e (draws w + k)) n prompt = (headers, rows, filename, used)"
  shows "save_excel e prompt output_folder w =
      (Inr (), w\<lparr>dirs := insert output_folder (dirs w),
                files := (files w)(path_join output_folder filename \<mapsto> Workbook (map Str headers # rows)),
                console := console w @ [ExcelCreated (path_join output_folder filename)],
                draws := draws w + used\<rparr>)"
  using assms
  by (simp add: save_excel_def makedirs_def write_file_def py_print_def Let_def)

lemma save_excel_raises:
  assumes "row_count prompt = Inl err"
  shows "save_excel e prompt output_folder w = (Inl err, w\<lparr>dirs := insert output_folder (dirs w)\<rparr>)"
  using assms by (simp add: save_excel_def makedirs_def Let_def)

lemma choice_mem: "xs \<noteq> [] \<Longrightarrow> choice xs r \<in> set xs"
  unfolding choice_def by (rule nth_mem) simp

lemma choice_departments: "choice departments r \<in> {''HR'', ''IT'', ''Finance'', ''Marketing''}"
proof -
  have "choice departments r \<in> set departments"
    by (rule choice_mem) (simp add: departments_def)
  then show ?thesis by (simp add: departments_def)
qed

lemma randint_range: "a \<le> b \<Longrightarrow> a \<le> randint a b r \<and> randint a b r \<le> b"
proof -
  assume "a \<le> b"
  have "r mod (b - a + 1) < b - a + 1" by simp
  then show ?thesis using \<open>a \<le> b\<close> unfolding randint_def by linarith
qed

lemma excel_table_employee:
  assumes "sublist ''employee'' (lower prompt)"
  shows "\<exists>rows. excel_table r n prompt =
      ([''ID'', ''Name'', ''Department'', ''Salary''], rows, ''employees.xlsx'', 2 * n)
    \<and> length rows = n
    \<and> (\<forall>row \<in> set rows. \<exists>i name dept salary. row = [Num i, Str name, Str dept, Num salary]
          \<and> dept \<in> {''HR'', ''IT'', ''Finance'', ''Marketing''}
          \<and> 30000 \<le> salary \<and> salary \<le> 100000)"
proof -
  have "30000 \<le> randint 30000 100000 x \<and> randint 30000 100000 x \<le> 100000" for x
    by (rule randint_range) simp
  then show ?thesis
    using assms choice_departments by (auto simp add: excel_table_def)
qed

lemma example_prompt_facts:
  "row_count ''Create excel sheet for 7 employees'' = Inr 7
   \<and> sublist ''employee'' (lower ''Create excel sheet for 7 employees'')"
  by code_simp

text \<open>
  Claim C2, as amended. A task without a digit gives 10 rows; a task whose first run of
  digits is at most 4300 characters long gives as many rows as the integer that run
  denotes (the text before the run has no digit, the text after it does not start with
  one). Whenever the row count is \<open>n\<close>, the spreadsheet handler writes one workbook: the
  header row followed by exactly \<open>n\<close> data rows. For the task
  \<open>Create excel sheet for 7 employees\<close> the workbook \<open>employees.xlsx\<close> has the header
  ID, Name, Department, Salary and exactly 7 data rows, each with a department among
  HR, IT, Finance, Marketing and a salary from 30000 to 100000, whatever the random draws.
\<close>

theorem save_excel_row_count:
  "(list_all (\<lambda>c. \<not> is_digit c) prompt \<longrightarrow> row_count prompt = Inr 10)
   \<and> (list_all (\<lambda>c. \<not> is_digit c) pre \<and> ds \<noteq> [] \<and> list_all is_digit ds
        \<and> takeWhile is_digit post = [] \<and> length ds \<le> 4300 \<longrightarrow>
        row_count (pre @ ds @ post) = Inr (decimal_value ds))
   \<and> (row_count prompt = Inr n \<longrightarrow>
        (\<exists>headers rows filename used.
           excel_table (\<lambda>k. rnd e (draws w + k)) n prompt = (headers, rows, filename, used)
         \<and> save_excel e prompt output_folder w =
             (Inr (), w\<lparr>dirs := insert output_folder (dirs w),
                        files := (files w)(path_join output_folder filename \<mapsto> Workbook (map Str headers # rows)),
                        console := console w @ [ExcelCreated (path_join output_folder filename)],
                        draws := draws w + used\<rparr>)
         \<and> length rows = n))
   \<and> (\<exists>rows.
         save_excel e ''Create excel sheet for 7 employees'' output_folder w =
           (Inr (), w\<lparr>dirs := insert output_folder (dirs w),
                      files := (files w)(path_join output_folder ''employees.xlsx'' \<mapsto>
                        Workbook ([Str ''ID'', Str ''Name'', Str ''Department'', Str ''Salary''] # rows)),
                      console := console w @ [ExcelCreated (path_join output_folder ''employees.xlsx'')],
                      draws := draws w + 14\<rparr>)
       \<and> length rows = 7
       \<and> (\<forall>row \<in> set rows. \<exists>i name dept salary. row = [Num i, Str name, Str dept, Num salary]
             \<and> dept \<in> {''HR'', ''IT'', ''Finance'', ''Marketing''}
             \<and> 30000 \<le> salary \<and> salary \<le> 100000))"
proof -
  have general: "\<exists>headers rows filename used.
           excel_table (\<lambda>k. rnd e (draws w + k)) n prompt = (headers, rows, filename, used)
         \<and> save_excel e prompt output_folder w =
             (Inr (), w\<lparr>dirs := insert output_folder (dirs w),
                        files := (files w)(path_join output_folder filename \<mapsto> Workbook (map Str headers # rows)),
                        console := console w @ [ExcelCreated (path_join output_folder filename)],
                        draws := draws w + used\<rparr>)
         \<and> length rows = n"
    if rc: "row_count prompt = Inr n"
  proof -
    obtain headers rows filename used where
      t: "excel_table (\<lambda>k. rnd e (draws w + k)) n prompt = (headers, rows, filename, used)"
      by (cases "excel_table (\<lambda>k. rnd e (draws w + k)) n prompt") auto
    show ?thesis
      using t save_excel_result [OF rc t] excel_table_length [OF t] by blast
  qed
  obtain rows7 where
    t7: "excel_table (\<lambda>k. rnd e (draws w + k)) 7 ''Create excel sheet for 7 employees'' =
          ([''ID'', ''Name'', ''Department'', ''Salary''], rows7, ''employees.xlsx'', 2 * 7)"
    and len7: "length rows7 = 7"
    and rows7: "\<forall>row \<in> set rows7. \<exists>i name dept salary. row = [Num i, Str name, Str dept, Num salary]
          \<and> dept \<in> {''HR'', ''IT'', ''Finance'', ''Marketing''}
          \<and> 30000 \<le> salary \<and> salary \<le> 100000"
    using excel_table_employee [of "''Create excel sheet for 7 employees''" "\<lambda>k. rnd e (draws w + k)" 7]
      example_prompt_facts by blast
  have rc7: "row_count ''Create excel sheet for 7 employees'' = Inr 7"
    using example_prompt_facts by blast
  have example: "\<exists>rows.
         save_excel e ''Create excel sheet for 7 employees'' output_folder w =
           (Inr (), w\<lparr>dirs := insert output_folder (dirs w),
                      files := (files w)(path_join output_folder ''employees.xlsx'' \<mapsto>
                        Workbook ([Str ''ID'', Str ''Name'', Str ''Department'', Str ''Salary''] # rows)),
                      console := console w @ [ExcelCreated (path_join output_folder ''employees.xlsx'')],
                      draws := draws w + 14\<rparr>)
       \<and> length rows = 7
       \<and> (\<forall>row \<in> set rows. \<exists>i name dept salary. row = [Num i, Str name, Str dept, Num salary]
             \<and> dept \<in> {''HR'', ''IT'', ''Finance'', ''Marketing''}
             \<and> 30000 \<le> salary \<and> salary \<le> 100000)"
    using save_excel_result [OF rc7 t7, of output_folder] len7 rows7
    by (intro exI [of _ rows7]) simp
  show ?thesis
    using general example row_count_default [of prompt] row_count_first [of pre ds post]
    by blast
qed

text \<open>
  The theorem at the task \<open>spreadsheet\<close>, which has no digit, at a task whose integer has
  several digits and a leading zero, and at the example task.
\<close>

theorem save_excel_row_count_witness:
  "list_all (\<lambda>c. \<not> is_digit c) ''spreadsheet'' \<and> row_count ''spreadsheet'' = Inr 10
   \<and> list_all (\<lambda>c. \<not> is_digit c) ''Make a spreadsheet with '' \<and> list_all is_digit ''0120''
   \<and> takeWhile is_digit '' rows'' = [] \<and> length ''0120'' \<le> 4300
   \<and> row_count (''Make a spreadsheet with '' @ ''0120'' @ '' rows'') = Inr (decimal_value ''0120'')
   \<and> decimal_value ''0120'' = 120
   \<and> row_count ''Create excel sheet for 7 employees'' = Inr 7
   \<and> (\<exists>headers rows filename used.
         excel_table (\<lambda>k. rnd (answering []) (draws empty_world + k)) 7 ''Create excel sheet for 7 employees'' =
           (headers, rows, filename, used)
       \<and> save_excel (answering []) ''Create excel sheet for 7 employees'' ''out'' empty_world =
           (Inr (), empty_world\<lparr>dirs := insert ''out'' (dirs empty_world),
                      files := (files empty_world)(path_join ''out'' filename \<mapsto> Workbook (map Str headers # rows)),
                      console := console empty_world @ [ExcelCreated (path_join ''out'' filename)],
                      draws := draws empty_world + used\<rparr>)
       \<and> length rows = 7)"
proof -
  have h: "list_all (\<lambda>c. \<not> is_digit c) ''spreadsheet''
      \<and> list_all (\<lambda>c. \<not> is_digit c) ''Make a spreadsheet with '' \<and> list_all is_digit ''0120''
      \<and> takeWhile is_digit '' rows'' = [] \<and> ''0120'' \<noteq> [] \<and> length ''0120'' \<le> 4300
      \<and> decimal_value ''0120'' = 120
      \<and> row_count ''Create excel sheet for 7 employees'' = Inr 7"
    by code_simp
  from h
    save_excel_row_count [where e = "answering []" and w = empty_world
      and prompt = "''spreadsheet''" and output_folder = "''out''"
      and pre = "''Make a spreadsheet with ''" and ds = "''0120''" and post = "'' rows''"]
    save_excel_row_count [where e = "answering []" and w = empty_world
      and prompt = "''Create excel sheet for 7 employees''" and output_folder = "''out''" and n = 7]
  show ?thesis by blast
qed

lemma long_run_facts:
  "list_all (\<lambda>c. \<not> is_digit c) ''excel '' \<and> takeWhile is_digit '' employees'' = []
   \<and> is_digit CHR ''0'' \<and> list_all is_digit ''7'' \<and> decimal_value ''7'' = 7"
  by code_simp

text \<open>
  The claim as stated, for every task, fails at a task whose first run of digits is longer
  than 4300 characters: the first integer of the text below is 7, and the handler ends
  with \<open>ValueError\<close> after making the folder, writing no row and no file.
\<close>

theorem long_digit_run_counterexample:
  "decimal_value (replicate 4300 CHR ''0'' @ ''7'') = 7
   \<and> save_excel (answering []) (''excel '' @ (replicate 4300 CHR ''0'' @ ''7'') @ '' employees'') ''out'' empty_world =
       (Inl ValueError, empty_world\<lparr>dirs := insert ''out'' (dirs empty_world)\<rparr>)
   \<and> files (snd (save_excel (answering []) (''excel '' @ (replicate 4300 CHR ''0'' @ ''7'') @ '' employees'')
        ''out'' empty_world)) = files empty_world"
proof -
  have v: "decimal_value (replicate 4300 CHR ''0'' @ ''7'') = 7"
    using long_run_facts by (simp only: decimal_value_zeros)
  have digits: "list_all is_digit (replicate 4300 CHR ''0'' @ ''7'')"
    using long_run_facts by (simp add: list_all_iff)
  have rc: "row_count (''excel '' @ (replicate 4300 CHR ''0'' @ ''7'') @ '' employees'') = Inl ValueError"
    using long_run_facts digits by (intro row_count_long) simp_all
  note r = save_excel_raises [OF rc, of "answering []" "''out''" empty_world]
  show ?thesis
    unfolding r using v by simp
qed

text \<open>
  Claim C9. For every task whose lower-cased text contains both \<open>employee\<close> and
  \<open>student\<close>, the schema chosen is the employee one, for every number of rows and all
  draws: the header ID, Name, Department, Salary and the file \<open>employees.xlsx\<close>. Whenever
  the row count of such a task is \<open>m\<close>, the only file the handler writes is
  \<open>employees.xlsx\<close> with that header and \<open>m\<close> rows.
\<close>

theorem employee_before_student:
  assumes "sublist ''employee'' (lower prompt)" and "sublist ''student'' (lower prompt)"
  shows "(\<exists>rows. excel_table r n prompt =
            ([''ID'', ''Name'', ''Department'', ''Salary''], rows, ''employees.xlsx'', 2 * n)
          \<and> length rows = n)
    \<and> (row_count prompt = Inr m \<longrightarrow>
         (\<exists>rows.
            save_excel e prompt output_folder w =
              (Inr (), w\<lparr>dirs := insert output_folder (dirs w),
                         files := (files w)(path_join output_folder ''employees.xlsx'' \<mapsto>
                           Workbook ([Str ''ID'', Str ''Name'', Str ''Department'', Str ''Salary''] # rows)),
                         console := console w @ [ExcelCreated (path_join output_folder ''employees.xlsx'')],
                         draws := draws w + 2 * m\<rparr>)
          \<and> length rows = m))"
proof -
  have schema: "\<exists>rows. excel_table r n prompt =
            ([''ID'', ''Name'', ''Department'', ''Salary''], rows, ''employees.xlsx'', 2 * n)
          \<and> length rows = n" for r n
    using excel_table_employee [OF assms(1), of r n] by blast
  have written: "\<exists>rows.
            save_excel e prompt output_folder w =
              (Inr (), w\<lparr>dirs := insert output_folder (dirs w),
                         files := (files w)(path_join output_folder ''employees.xlsx'' \<mapsto>
                           Workbook ([Str ''ID'', Str ''Name'', Str ''Department'', Str ''Salary''] # rows)),
                         console := console w @ [ExcelCreated (path_join output_folder ''employees.xlsx'')],
                         draws := draws w + 2 * m\<rparr>)
          \<and> length rows = m"
    if rc: "row_count prompt = Inr m"
  proof -
    obtain rows where
      t: "excel_table (\<lambda>k. rnd e (draws w + k)) m prompt =
            ([''ID'', ''Name'', ''Department'', ''Salary''], rows, ''employees.xlsx'', 2 * m)"
      and len: "length rows = m"
      using schema [of "\<lambda>k. rnd e (draws w + k)" m] by blast
    show ?thesis
      using save_excel_result [OF rc t, of output_folder] len
      by (intro exI [of _ rows]) simp
  qed
  show ?thesis using schema written by blast
qed

text \<open>The theorem at a task that names both, the first in capitals.\<close>

theorem employee_before_student_witness:
  "sublist ''employee'' (lower ''Excel of 3 Employees and students'')
   \<and> sublist ''student'' (lower ''Excel of 3 Employees and students'')
   \<and> row_count ''Excel of 3 Employees and students'' = Inr 3
   \<and> (\<exists>rows. excel_table (rnd (answering [])) 3 ''Excel of 3 Employees and students'' =
            ([''ID'', ''Name'', ''Department'', ''Salary''], rows, ''employees.xlsx'', 2 * 3)
          \<and> length rows = 3)
   \<and> (\<exists>rows.
      save_excel (answering []) ''Excel of 3 Employees and students'' ''out'' empty_world =
        (Inr (), empty_world\<lparr>dirs := insert ''out'' (dirs empty_world),
                   files := (files empty_world)(path_join ''out'' ''employees.xlsx'' \<mapsto>
                     Workbook ([Str ''ID'', Str ''Name'', Str ''Department'', Str ''Salary''] # rows)),
                   console := console empty_world @ [ExcelCreated (path_join ''out'' ''employees.xlsx'')],
                   draws := draws empty_world + 2 * 3\<rparr>)
    \<and> length rows = 3)"
proof -
  have h: "sublist ''employee'' (lower ''Excel of 3 Employees and students'')
      \<and> sublist ''student'' (lower ''Excel of 3 Employees and students'')
      \<and> row_count ''Excel of 3 Employees and students'' = Inr 3"
    by code_simp
  from h employee_before_student [where prompt = "''Excel of 3 Employees and students''"
      and e = "answering []" and output_folder = "''out''" and w = empty_world and m = 3 and n = 3
      and r = "rnd (answering [])"]
  show ?thesis by blast
qed

section \<open>The loop over the parsed articles\<close>

lemma write_articles_console:
  "console (write_articles f i arts w) = console w @ map Saved (article_paths f i arts)"
  by (induction arts arbitrary: i w) (auto simp add: write_file_def py_print_def Let_def)

lemma write_articles_rest:
  "dirs (write_articles f i arts w) = dirs w
   \<and> requests (write_articles f i arts w) = requests w
   \<and> draws (write_articles f i arts w) = draws w"
  by (induction arts arbitrary: i w) (auto simp add: write_file_def py_print_def Let_def)

lemma files_written: "files (py_print m (write_file p d w)) = (files w)(p \<mapsto> d)"
  by (simp add: write_file_def py_print_def)

lemma write_articles_dom:
  "dom (files (write_articles f i arts w)) = dom (files w) \<union> set (article_paths f i arts)"
proof (induction arts arbitrary: i w)
  case Nil
  then show ?case by simp
next
  case (Cons a arts)
  obtain title content where a: "a = (title, content)" by (cases a)
  define w1 where "w1 = py_print (Saved (article_path f i title))
      (write_file (article_path f i title) (TextFile (article_text title content)) w)"
  have step: "write_articles f i (a # arts) w = write_articles f (Suc i) arts w1"
    by (simp add: a w1_def Let_def)
  have "dom (files w1) = insert (article_path f i title) (dom (files w))"
    unfolding w1_def files_written by simp
  then show ?case
    unfolding step using Cons.IH [of "Suc i" w1] by (simp add: a)
qed

lemma write_articles_untouched:
  "p \<notin> set (article_paths f i arts) \<Longrightarrow> files (write_articles f i arts w) p = files w p"
  by (induction arts arbitrary: i w) (auto simp add: write_file_def py_print_def Let_def)

lemma article_paths_length: "length (article_paths f i arts) = length arts"
  by (induction arts arbitrary: i) auto

lemma article_paths_nth:
  "j < length arts \<Longrightarrow> article_paths f i arts ! j = article_path f (i + j) (fst (arts ! j))"
proof (induction arts arbitrary: i j)
  case Nil
  then show ?case by simp
next
  case (Cons a arts)
  obtain title content where a: "a = (title, content)" by (cases a)
  show ?case
  proof (cases j)
    case 0
    then show ?thesis using a by simp
  next
    case (Suc j')
    then have "j' < length arts" using Cons.prems by simp
    from Cons.IH [OF this, of "Suc i"] show ?thesis using a Suc by simp
  qed
qed

text \<open>
  Every path the loop writes ends up holding the text of the last article written to it.
\<close>

lemma write_articles_last:
  "p \<in> set (article_paths f i arts) \<Longrightarrow>
   \<exists>k < length arts. article_paths f i arts ! k = p
     \<and> files (write_articles f i arts w) p = Some (TextFile (article_text (fst (arts ! k)) (snd (arts ! k))))
     \<and> (\<forall>m. k < m \<and> m < length arts \<longrightarrow> article_paths f i arts ! m \<noteq> p)"
proof (induction arts arbitrary: i w)
  case Nil
  then show ?case by simp
next
  case (Cons a arts)
  obtain title content where a: "a = (title, content)" by (cases a)
  define w1 where "w1 = py_print (Saved (article_path f i title))
      (write_file (article_path f i title) (TextFile (article_text title content)) w)"
  have step: "write_articles f i (a # arts) w = write_articles f (Suc i) arts w1"
    by (simp add: a w1_def Let_def)
  show ?case
  proof (cases "p \<in> set (article_paths f (Suc i) arts)")
    case True
    from Cons.IH [OF True, of w1] obtain k where k: "k < length arts"
      "article_paths f (Suc i) arts ! k = p"
      "files (write_articles f (Suc i) arts w1) p = Some (TextFile (article_text (fst (arts ! k)) (snd (arts ! k))))"
      "\<forall>m. k < m \<and> m < length arts \<longrightarrow> article_paths f (Suc i) arts ! m \<noteq> p"
      by blast
    have later: "\<forall>m. Suc k < m \<and> m < length (a # arts) \<longrightarrow> article_paths f i (a # arts) ! m \<noteq> p"
    proof (intro allI impI)
      fix m assume m: "Suc k < m \<and> m < length (a # arts)"
      then obtain m' where m': "m = Suc m'" by (cases m) auto
      with m k(4) show "article_paths f i (a # arts) ! m \<noteq> p" using a by simp
    qed
    show ?thesis
      using k(1,2,3) later a step by (intro exI [of _ "Suc k"]) simp
  next
    case False
    then have p: "p = article_path f i title" using Cons.prems a by simp
    have "files (write_articles f (Suc i) arts w1) p = files w1 p"
      using False by (rule write_articles_untouched)
    then have val: "files (write_articles f i (a # arts) w) p = Some (TextFile (article_text title content))"
      using step p by (simp add: w1_def write_file_def py_print_def)
    have later: "\<forall>m. 0 < m \<and> m < length (a # arts) \<longrightarrow> article_paths f i (a # arts) ! m \<noteq> p"
    proof (intro allI impI)
      fix m assume m: "0 < m \<and> m < length (a # arts)"
      then obtain m' where m': "m = Suc m'" by (cases m) auto
      then have "m' < length (article_paths f (Suc i) arts)" using m by (simp add: article_paths_length)
      then have "article_paths f (Suc i) arts ! m' \<in> set (article_paths f (Suc i) arts)" by (rule nth_mem)
      with False show "article_paths f i (a # arts) ! m \<noteq> p" using m' a by auto
    qed
    show ?thesis
      using val later p a by (intro exI [of _ 0]) simp
  qed
qed

section \<open>File names of articles\<close>

lemma sanitize_filename_empty: "sanitize_filename s = [] \<longleftrightarrow> s = []"
  by (simp add: sanitize_filename_def)

lemma safe_title_cases:
  "safe_title n title =
     (if strip title = [] then ''Article_'' @ str_of_nat n else sanitize_filename (strip title))"
  by (simp add: safe_title_def sanitize_filename_empty)

lemma slash_not_filename_char: "\<not> is_filename_char CHR ''/''"
  by (simp add: is_filename_char_def)

lemma sanitize_filename_set: "c \<in> set (sanitize_filename s) \<Longrightarrow> is_filename_char c"
  unfolding sanitize_filename_def
  by (auto dest!: in_set_takeD simp: is_filename_char_def)

lemma safe_title_no_slash: "\<not> prefix ''/'' (safe_title n title @ ''.txt'')"
proof (cases "strip title = []")
  case True
  then show ?thesis by (simp add: safe_title_cases)
next
  case False
  then have ne: "sanitize_filename (strip title) \<noteq> []"
    by (simp add: sanitize_filename_empty)
  then obtain x xs where x: "sanitize_filename (strip title) = x # xs"
    by (cases "sanitize_filename (strip title)") auto
  then have "x \<in> set (sanitize_filename (strip title))" by simp
  then have "is_filename_char x" by (rule sanitize_filename_set)
  then have "x \<noteq> CHR ''/''" using slash_not_filename_char by auto
  then show ?thesis using False x by (simp add: safe_title_cases)
qed

lemma path_join_inject:
  "\<not> prefix ''/'' a \<Longrightarrow> \<not> prefix ''/'' b \<Longrightarrow> path_join f a = path_join f b \<Longrightarrow> a = b"
  by (simp add: path_join_def split: if_splits)

lemma article_path_eq_iff:
  "article_path f n t = article_path f m u \<longleftrightarrow> safe_title n t = safe_title m u"
proof
  assume "article_path f n t = article_path f m u"
  then have "safe_title n t @ ''.txt'' = safe_title m u @ ''.txt''"
    unfolding article_path_def
    by (rule path_join_inject [OF safe_title_no_slash safe_title_no_slash])
  then show "safe_title n t = safe_title m u" by simp
next
  assume "safe_title n t = safe_title m u"
  then show "article_path f n t = article_path f m u" by (simp add: article_path_def)
qed

lemma article_text_heading:
  "prefix (strip title @ ''\<newline>'' @ replicate (length (strip title)) CHR ''='' @ ''\<newline>'')
     (article_text title content)"
  by (simp add: article_text_def)

lemma write_two_articles:
  "write_articles f 1 [(t1, c1), (t2, c2)] w =
     w\<lparr>files := (files w)(article_path f 1 t1 \<mapsto> TextFile (article_text t1 c1),
                          article_path f 2 t2 \<mapsto> TextFile (article_text t2 c2)),
       console := console w @ [Saved (article_path f 1 t1), Saved (article_path f 2 t2)]\<rparr>"
  by (simp add: Let_def write_file_def py_print_def del: One_nat_def)

section \<open>Answers in the requested format\<close>

text \<open>
  A lazy group stops at the shortest text after which the rest of the pattern matches.
\<close>

lemma lazy_star_shortest:
  assumes "k g s0 = Some r" and "list_all cls g"
    and "\<And>g' x g''. g = g' @ x # g'' \<Longrightarrow> k g' (x # g'' @ s0) = None"
  shows "lazy_star cls k (g @ s0) = Some r"
  using assms
proof (induction g arbitrary: k)
  case Nil
  then show ?case by (cases s0) simp_all
next
  case (Cons x g)
  have none: "k [] (x # g @ s0) = None"
    using Cons.prems(3) [of "[]" x g] by simp
  have "lazy_star cls (\<lambda>h. k (x # h)) (g @ s0) = Some r"
  proof (rule Cons.IH)
    show "k (x # g) s0 = Some r" by (rule Cons.prems(1))
    show "list_all cls g" using Cons.prems(2) by simp
    show "k (x # g') (y # g'' @ s0) = None" if "g = g' @ y # g''" for g' y g''
      using Cons.prems(3) [of "x # g'" y g''] that by simp
  qed
  then show ?case using none Cons.prems(2) by simp
qed

lemma prefix_take_right:
  assumes "prefix p (d @ y)" and "length p \<le> length d + n"
  shows "prefix p (d @ take n y)"
proof -
  have "p = take (length p) (d @ y)"
    using assms(1) by (metis append_eq_conv_conj prefix_def)
  also have "\<dots> = take (length p) d @ take (length p - length d) y" by simp
  also have "take (length p - length d) y = take (length p - length d) (take n y)"
  proof -
    have "length p - length d \<le> n" using assms(2) by simp
    then show ?thesis by (simp add: min_absorb1)
  qed
  finally have "p = take (length p) (d @ take n y)" by simp
  then show ?thesis by (metis take_is_prefix)
qed

text \<open>
  In a content that nowhere holds the end line, not even across its end, the first end line
  found is the one that closes the block.
\<close>

lemma end_marker_first:
  assumes "\<not> sublist ''\<newline>ARTICLE END'' (c @ ''\<newline>ARTICLE EN'')" and "c = c' @ x # c''"
  shows "\<not> prefix ''\<newline>ARTICLE END'' (x # c'' @ ''\<newline>ARTICLE END'' @ rest)"
proof
  have cut: "take 11 (''\<newline>ARTICLE END'' @ rest) = ''\<newline>ARTICLE EN''" by simp
  assume "prefix ''\<newline>ARTICLE END'' (x # c'' @ ''\<newline>ARTICLE END'' @ rest)"
  then have "prefix ''\<newline>ARTICLE END'' ((x # c'') @ (''\<newline>ARTICLE END'' @ rest))"
    by (simp only: append_Cons)
  then have "prefix ''\<newline>ARTICLE END'' ((x # c'') @ take 11 (''\<newline>ARTICLE END'' @ rest))"
    by (rule prefix_take_right) simp
  then obtain ss where "(x # c'') @ ''\<newline>ARTICLE EN'' = ''\<newline>ARTICLE END'' @ ss"
    unfolding cut prefix_def by blast
  then have "c' @ (x # c'') @ ''\<newline>ARTICLE EN'' = c' @ ''\<newline>ARTICLE END'' @ ss"
    by (simp only:)
  then have "c @ ''\<newline>ARTICLE EN'' = c' @ ''\<newline>ARTICLE END'' @ ss"
    unfolding assms(2) by (simp only: append_assoc)
  then have "sublist ''\<newline>ARTICLE END'' (c @ ''\<newline>ARTICLE EN'')"
    unfolding sublist_def by blast
  with assms(1) show False by simp
qed

lemma lit_append: "lit p k (p @ s) = k s"
  by (simp add: lit_def)

text \<open>
  The pattern matches a block with a one-line title and such a content exactly: the groups
  are the title and the content, and the scan goes on behind the block.
\<close>

lemma article_re_block:
  assumes "CHR 0x0A \<notin> set t" and "\<not> sublist ''\<newline>ARTICLE END'' (c @ ''\<newline>ARTICLE EN'')"
  shows "article_re (article_block t c @ rest) = Some ((t, c), rest)"
proof -
  define k2 where "k2 = (\<lambda>(title :: string) (content :: string).
      lit ''\<newline>ARTICLE END'' (\<lambda>rest. Some ((title, content), rest :: string)))"
  define k1 where "k1 = (\<lambda>title. lit ''\<newline>'' (lazy_star (\<lambda>c. True) (k2 title)))"
  have re: "article_re = lit ''ARTICLE START\<newline>'' (lazy_star (\<lambda>c. True) k1)"
    by (simp add: article_re_def k1_def k2_def)
  have content: "lazy_star (\<lambda>c. True) (k2 t) (c @ ''\<newline>ARTICLE END'' @ rest) = Some ((t, c), rest)"
  proof (rule lazy_star_shortest)
    show "k2 t c (''\<newline>ARTICLE END'' @ rest) = Some ((t, c), rest)"
      unfolding k2_def by (rule lit_append)
    show "list_all (\<lambda>c. True) c" by (simp add: list_all_iff)
    show "k2 t c' (x # c'' @ ''\<newline>ARTICLE END'' @ rest) = None" if "c = c' @ x # c''" for c' x c''
      unfolding k2_def lit_def using end_marker_first [OF assms(2) that] by simp
  qed
  have title: "lazy_star (\<lambda>c. True) k1 (t @ ''\<newline>'' @ c @ ''\<newline>ARTICLE END'' @ rest) = Some ((t, c), rest)"
  proof (rule lazy_star_shortest)
    show "k1 t (''\<newline>'' @ c @ ''\<newline>ARTICLE END'' @ rest) = Some ((t, c), rest)"
      unfolding k1_def lit_append by (rule content)
    show "list_all (\<lambda>c. True) t" by (simp add: list_all_iff)
    show "k1 g' (x # g'' @ ''\<newline>'' @ c @ ''\<newline>ARTICLE END'' @ rest) = None" if "t = g' @ x # g''" for g' x g''
    proof -
      have "x \<noteq> CHR 0x0A" using assms(1) that by auto
      then show ?thesis by (simp add: k1_def lit_def)
    qed
  qed
  have "article_re (''ARTICLE START\<newline>'' @ (t @ ''\<newline>'' @ c @ ''\<newline>ARTICLE END'' @ rest)) = Some ((t, c), rest)"
    unfolding re lit_append by (rule title)
  then show ?thesis by (simp add: article_block_def)
qed

lemma findall_article_skip:
  "CHR ''A'' \<notin> set mid \<Longrightarrow> findall article_re (mid @ s) = findall article_re s"
proof (induction mid)
  case Nil
  then show ?case by simp
next
  case (Cons x mid)
  then have "x \<noteq> CHR ''A''" by auto
  then have "article_re (x # mid @ s) = None"
    by (simp add: article_re_def lit_def)
  then have "findall article_re ((x # mid) @ s) = findall article_re (mid @ s)"
    by (simp add: findall.simps [of article_re "x # mid @ s"])
  then show ?case using Cons by simp
qed

lemma findall_article_end: "findall article_re [] = []"
proof -
  have "article_re [] = None" by (simp add: article_re_def lit_def)
  then show ?thesis by (simp add: findall.simps [of article_re "[]"])
qed

lemma two_blocks_parse:
  assumes "CHR 0x0A \<notin> set t1" and "\<not> sublist ''\<newline>ARTICLE END'' (c1 @ ''\<newline>ARTICLE EN'')"
    and "CHR 0x0A \<notin> set t2" and "\<not> sublist ''\<newline>ARTICLE END'' (c2 @ ''\<newline>ARTICLE EN'')"
    and "CHR ''A'' \<notin> set mid"
  shows "findall article_re (article_block t1 c1 @ mid @ article_block t2 c2) = [(t1, c1), (t2, c2)]"
proof -
  have m1: "article_re (article_block t1 c1 @ mid @ article_block t2 c2) =
      Some ((t1, c1), mid @ article_block t2 c2)"
    using assms(1,2) by (rule article_re_block)
  have m2: "article_re (article_block t2 c2) = Some ((t2, c2), [])"
    using article_re_block [OF assms(3,4), of "[]"] by simp
  have f2: "findall article_re (article_block t2 c2) = [(t2, c2)]"
    using m2 article_re_consumes [OF m2] findall_article_end
    by (simp add: findall.simps [of article_re "article_block t2 c2"])
  have "findall article_re (article_block t1 c1 @ mid @ article_block t2 c2) =
      (t1, c1) # findall article_re (mid @ article_block t2 c2)"
    using m1 article_re_consumes [OF m1]
    by (simp add: findall.simps [of article_re "article_block t1 c1 @ mid @ article_block t2 c2"])
  then show ?thesis
    using findall_article_skip [OF assms(5)] f2 by simp
qed

lemma strip_two_blocks:
  "strip (article_block t1 c1 @ mid @ article_block t2 c2) = article_block t1 c1 @ mid @ article_block t2 c2"
proof -
  have a: "\<not> is_space CHR ''A''" and d: "\<not> is_space CHR ''D''"
    by (simp_all add: is_space_def)
  obtain body where b: "article_block t1 c1 @ mid @ article_block t2 c2 = CHR ''A'' # body"
    by (simp add: article_block_def)
  obtain ydob where r: "rev (article_block t1 c1 @ mid @ article_block t2 c2) = CHR ''D'' # ydob"
    by (simp add: article_block_def)
  show ?thesis
    unfolding strip_def
    using a d by (simp add: b r [unfolded b] del: rev.simps) (simp add: r [unfolded b, symmetric])
qed

text \<open>
  An answer made of two such blocks, with any text without a capital A between them (a
  newline, blank lines), is parsed into exactly those two blocks.
\<close>

lemma well_formed_response_parse:
  assumes "CHR 0x0A \<notin> set t1" and "\<not> sublist ''\<newline>ARTICLE END'' (c1 @ ''\<newline>ARTICLE EN'')"
    and "CHR 0x0A \<notin> set t2" and "\<not> sublist ''\<newline>ARTICLE END'' (c2 @ ''\<newline>ARTICLE EN'')"
    and "CHR ''A'' \<notin> set mid"
  shows "findall article_re (strip (article_block t1 c1 @ mid @ article_block t2 c2)) = [(t1, c1), (t2, c2)]"
  unfolding strip_two_blocks using assms by (rule two_blocks_parse)

section \<open>Two articles\<close>

lemma small_numbers: "str_of_nat 1 = ''1'' \<and> str_of_nat 2 = ''2''"
  by code_simp

text \<open>
  Claim C4, as amended. When the text service answers and the article pattern finds
  exactly two blocks in the stripped answer (as it does in an answer made of two blocks in
  the requested format, \<open>well_formed_response_parse\<close>), the handler writes twice: the \<open>n\<close>-th block
  to the file named by its sanitized stripped title, or \<open>Article_n\<close> when the stripped
  title is empty, each text beginning with the stripped title line and an underline of
  \<open>=\<close> of the title's length. When the two names differ the two paths differ, and
  exactly two files are written. (Two blocks with the same name go to one file; the
  fallback name is not used for them.)
\<close>

theorem two_articles_written:
  assumes "service e (requests w) (articles_instruction prompt) = Inr response"
    and "findall article_re (strip response) = [(t1, c1), (t2, c2)]"
  shows "save_articles e prompt output_folder w =
      (Inr (), w\<lparr>dirs := insert output_folder (dirs w),
                files := (files w)(article_path output_folder 1 t1 \<mapsto> TextFile (article_text t1 c1),
                                   article_path output_folder 2 t2 \<mapsto> TextFile (article_text t2 c2)),
                console := console w @ [Saved (article_path output_folder 1 t1),
                                        Saved (article_path output_folder 2 t2)],
                requests := Suc (requests w)\<rparr>)
    \<and> article_path output_folder 1 t1 =
        path_join output_folder ((if strip t1 = [] then ''Article_1'' else sanitize_filename (strip t1)) @ ''.txt'')
    \<and> article_path output_folder 2 t2 =
        path_join output_folder ((if strip t2 = [] then ''Article_2'' else sanitize_filename (strip t2)) @ ''.txt'')
    \<and> prefix (strip t1 @ ''\<newline>'' @ replicate (length (strip t1)) CHR ''='' @ ''\<newline>'') (article_text t1 c1)
    \<and> prefix (strip t2 @ ''\<newline>'' @ replicate (length (strip t2)) CHR ''='' @ ''\<newline>'') (article_text t2 c2)
    \<and> (safe_title 1 t1 \<noteq> safe_title 2 t2 \<longrightarrow>
         article_path output_folder 1 t1 \<noteq> article_path output_folder 2 t2)"
proof -
  have main: "save_articles e prompt output_folder w =
      (Inr (), w\<lparr>dirs := insert output_folder (dirs w),
                files := (files w)(article_path output_folder 1 t1 \<mapsto> TextFile (article_text t1 c1),
                                   article_path output_folder 2 t2 \<mapsto> TextFile (article_text t2 c2)),
                console := console w @ [Saved (article_path output_folder 1 t1),
                                        Saved (article_path output_folder 2 t2)],
                requests := Suc (requests w)\<rparr>)"
    unfolding save_articles_result [OF assms(1)] assms(2) using write_two_articles
    by simp
  have p1: "article_path output_folder 1 t1 =
        path_join output_folder ((if strip t1 = [] then ''Article_1'' else sanitize_filename (strip t1)) @ ''.txt'')"
    using small_numbers by (simp add: article_path_def safe_title_cases del: One_nat_def)
  have p2: "article_path output_folder 2 t2 =
        path_join output_folder ((if strip t2 = [] then ''Article_2'' else sanitize_filename (strip t2)) @ ''.txt'')"
    using small_numbers by (simp add: article_path_def safe_title_cases)
  show ?thesis
    using main p1 p2 article_text_heading [of t1 c1] article_text_heading [of t2 c2]
      article_path_eq_iff [of output_folder 1 t1 2 t2]
    by blast
qed

text \<open>
  The theorem for an answer of two blocks in the requested format, the second with a blank
  title; that it parses into two blocks follows from its shape
  (\<open>well_formed_response_parse\<close>). The files are \<open>Green_Tea.txt\<close> and \<open>Article_2.txt\<close>.
\<close>

theorem two_articles_written_witness:
  "service (answering ''ARTICLE START\<newline>Green Tea\<newline>Fresh.\<newline>ARTICLE END\<newline>ARTICLE START\<newline> \<newline>Bold.\<newline>ARTICLE END'')
      (requests empty_world) (articles_instruction ''Write articles on tea'') =
      Inr ''ARTICLE START\<newline>Green Tea\<newline>Fresh.\<newline>ARTICLE END\<newline>ARTICLE START\<newline> \<newline>Bold.\<newline>ARTICLE END''
   \<and> findall article_re (strip ''ARTICLE START\<newline>Green Tea\<newline>Fresh.\<newline>ARTICLE END\<newline>ARTICLE START\<newline> \<newline>Bold.\<newline>ARTICLE END'') =
       [(''Green Tea'', ''Fresh.''), ('' '', ''Bold.'')]
   \<and> save_articles (answering ''ARTICLE START\<newline>Green Tea\<newline>Fresh.\<newline>ARTICLE END\<newline>ARTICLE START\<newline> \<newline>Bold.\<newline>ARTICLE END'')
        ''Write articles on tea'' ''out'' empty_world =
      (Inr (), empty_world\<lparr>dirs := insert ''out'' (dirs empty_world),
                files := (files empty_world)(
                   ''out/Green_Tea.txt'' \<mapsto> TextFile ''Green Tea\<newline>=========\<newline>\<newline>Fresh.'',
                   ''out/Article_2.txt'' \<mapsto> TextFile ''\<newline>\<newline>\<newline>Bold.''),
                console := console empty_world @ [Saved ''out/Green_Tea.txt'', Saved ''out/Article_2.txt''],
                requests := Suc (requests empty_world)\<rparr>)
   \<and> safe_title 1 ''Green Tea'' \<noteq> safe_title 2 '' ''"
proof -
  have shape: "article_block ''Green Tea'' ''Fresh.'' @ ''\<newline>'' @ article_block '' '' ''Bold.'' =
      ''ARTICLE START\<newline>Green Tea\<newline>Fresh.\<newline>ARTICLE END\<newline>ARTICLE START\<newline> \<newline>Bold.\<newline>ARTICLE END''"
    by (simp add: article_block_def)
  have wf: "CHR 0x0A \<notin> set ''Green Tea'' \<and> \<not> sublist ''\<newline>ARTICLE END'' (''Fresh.'' @ ''\<newline>ARTICLE EN'')
      \<and> CHR 0x0A \<notin> set '' '' \<and> \<not> sublist ''\<newline>ARTICLE END'' (''Bold.'' @ ''\<newline>ARTICLE EN'')
      \<and> CHR ''A'' \<notin> set ''\<newline>''"
    by code_simp
  have parse: "findall article_re (strip ''ARTICLE START\<newline>Green Tea\<newline>Fresh.\<newline>ARTICLE END\<newline>ARTICLE START\<newline> \<newline>Bold.\<newline>ARTICLE END'') =
       [(''Green Tea'', ''Fresh.''), ('' '', ''Bold.'')]"
    using wf well_formed_response_parse [of "''Green Tea''" "''Fresh.''" "'' ''" "''Bold.''" "''\<newline>''"]
    unfolding shape by blast
  have vals: "article_path ''out'' 1 ''Green Tea'' = ''out/Green_Tea.txt''
      \<and> article_path ''out'' 2 '' '' = ''out/Article_2.txt''
      \<and> article_text ''Green Tea'' ''Fresh.'' = ''Green Tea\<newline>=========\<newline>\<newline>Fresh.''
      \<and> article_text '' '' ''Bold.'' = ''\<newline>\<newline>\<newline>Bold.''
      \<and> safe_title 1 ''Green Tea'' \<noteq> safe_title 2 '' ''"
    by code_simp
  note a = answering_service [of "''ARTICLE START\<newline>Green Tea\<newline>Fresh.\<newline>ARTICLE END\<newline>ARTICLE START\<newline> \<newline>Bold.\<newline>ARTICLE END''"
      "requests empty_world" "articles_instruction ''Write articles on tea''"]
  from two_articles_written [OF a parse, of "''out''"] a parse vals show ?thesis
    by simp
qed

lemma duplicate_example:
  "findall article_re (strip ''ARTICLE START\<newline>Tea\<newline>Green.\<newline>ARTICLE END\<newline>ARTICLE START\<newline>Tea\<newline>Black.\<newline>ARTICLE END'') =
       [(''Tea'', ''Green.''), (''Tea'', ''Black.'')]
   \<and> article_paths ''out'' 1 [(''Tea'', ''Green.''), (''Tea'', ''Black.'')] = [''out/Tea.txt'', ''out/Tea.txt'']
   \<and> article_text ''Tea'' ''Black.'' = ''Tea\<newline>===\<newline>\<newline>Black.''
   \<and> sanitize_filename (strip ''Tea'') = ''Tea''"
  by code_simp

text \<open>
  The claim as stated, that two well-formed blocks always give exactly two files, fails for
  two blocks with the same title: both are written to \<open>Tea.txt\<close>, and one file exists
  afterwards.
\<close>

theorem two_files_counterexample:
  "findall article_re (strip ''ARTICLE START\<newline>Tea\<newline>Green.\<newline>ARTICLE END\<newline>ARTICLE START\<newline>Tea\<newline>Black.\<newline>ARTICLE END'') =
       [(''Tea'', ''Green.''), (''Tea'', ''Black.'')]
   \<and> dom (files (snd (save_articles (answering ''ARTICLE START\<newline>Tea\<newline>Green.\<newline>ARTICLE END\<newline>ARTICLE START\<newline>Tea\<newline>Black.\<newline>ARTICLE END'')
        ''Write articles on tea'' ''out'' empty_world))) = {''out/Tea.txt''}
   \<and> card (dom (files (snd (save_articles (answering ''ARTICLE START\<newline>Tea\<newline>Green.\<newline>ARTICLE END\<newline>ARTICLE START\<newline>Tea\<newline>Black.\<newline>ARTICLE END'')
        ''Write articles on tea'' ''out'' empty_world)))) = 1"
proof -
  have parse: "findall article_re (strip ''ARTICLE START\<newline>Tea\<newline>Green.\<newline>ARTICLE END\<newline>ARTICLE START\<newline>Tea\<newline>Black.\<newline>ARTICLE END'') =
       [(''Tea'', ''Green.''), (''Tea'', ''Black.'')]"
    and paths: "article_paths ''out'' 1 [(''Tea'', ''Green.''), (''Tea'', ''Black.'')] = [''out/Tea.txt'', ''out/Tea.txt'']"
    using duplicate_example by blast+
  have "dom (files (snd (save_articles (answering ''ARTICLE START\<newline>Tea\<newline>Green.\<newline>ARTICLE END\<newline>ARTICLE START\<newline>Tea\<newline>Black.\<newline>ARTICLE END'')
        ''Write articles on tea'' ''out'' empty_world))) =
      dom (files (empty_world\<lparr>dirs := insert ''out'' (dirs empty_world), requests := Suc (requests empty_world)\<rparr>))
        \<union> set (article_paths ''out'' 1 [(''Tea'', ''Green.''), (''Tea'', ''Black.'')])"
    unfolding save_articles_result [OF answering_service] parse
    by (simp only: snd_conv list.distinct if_False write_articles_dom)
  then have d: "dom (files (snd (save_articles (answering ''ARTICLE START\<newline>Tea\<newline>Green.\<newline>ARTICLE END\<newline>ARTICLE START\<newline>Tea\<newline>Black.\<newline>ARTICLE END'')
        ''Write articles on tea'' ''out'' empty_world))) = {''out/Tea.txt''}"
    unfolding paths by (simp add: empty_world_def)
  show ?thesis
    using parse by (simp add: d)
qed

lemma repeated_card: 
  assumes "i < j" and "j < length xs" and "xs ! i = xs ! j"
  shows "card (set xs) < length xs"
proof -
  have "i < length xs \<and> j < length xs \<and> i \<noteq> j \<and> xs ! i = xs ! j"
    using assms by simp
  then have "\<not> distinct xs"
    unfolding distinct_conv_nth by blast
  then have "card (set xs) \<noteq> length xs"
    using card_distinct by blast
  then show ?thesis
    using card_length [of xs] by simp
qed

lemma save_articles_parsed:
  assumes "service e (requests w) (articles_instruction prompt) = Inr response"
    and "findall article_re (strip response) = arts" and "arts \<noteq> []"
  shows "snd (save_articles e prompt output_folder w) =
      write_articles output_folder 1 arts
        (w\<lparr>dirs := insert output_folder (dirs w), requests := Suc (requests w)\<rparr>)"
  unfolding save_articles_result [OF assms(1)] assms(2) using assms(3) by simp

text \<open>
  Claim C10. When, within one run of the article handler, two parsed articles have titles
  that sanitize to the same non-empty string, both are written to the same path, the file
  of that name; after the run that file holds the text of an article no earlier than the
  later of the two, so the earlier text is overwritten; the handler has written to fewer
  paths than there are articles, and fewer new files exist than articles. The name
  \<open>Article_n\<close> is used exactly when the stripped title is empty, never because a title
  repeats.
\<close>

theorem duplicate_titles_overwrite:
  assumes "service e (requests w) (articles_instruction prompt) = Inr response"
    and "findall article_re (strip response) = arts"
    and "i < j" and "j < length arts"
    and "sanitize_filename (strip (fst (arts ! i))) = sanitize_filename (strip (fst (arts ! j)))"
    and "sanitize_filename (strip (fst (arts ! j))) \<noteq> []"
  shows "article_paths output_folder 1 arts ! i =
        path_join output_folder (sanitize_filename (strip (fst (arts ! j))) @ ''.txt'')
    \<and> article_paths output_folder 1 arts ! j =
        path_join output_folder (sanitize_filename (strip (fst (arts ! j))) @ ''.txt'')
    \<and> console (snd (save_articles e prompt output_folder w)) =
        console w @ map Saved (article_paths output_folder 1 arts)
    \<and> length (article_paths output_folder 1 arts) = length arts
    \<and> (\<exists>k. j \<le> k \<and> k < length arts
          \<and> article_paths output_folder 1 arts ! k = article_paths output_folder 1 arts ! j
          \<and> files (snd (save_articles e prompt output_folder w)) (article_paths output_folder 1 arts ! j) =
              Some (TextFile (article_text (fst (arts ! k)) (snd (arts ! k)))))
    \<and> dom (files (snd (save_articles e prompt output_folder w))) =
        dom (files w) \<union> set (article_paths output_folder 1 arts)
    \<and> card (set (article_paths output_folder 1 arts)) < length arts
    \<and> card (dom (files (snd (save_articles e prompt output_folder w))) - dom (files w)) < length arts
    \<and> (\<forall>n title. safe_title n title =
          (if strip title = [] then ''Article_'' @ str_of_nat n else sanitize_filename (strip title)))"
proof -
  define paths where "paths = article_paths output_folder 1 arts"
  define w0 where "w0 = w\<lparr>dirs := insert output_folder (dirs w), requests := Suc (requests w)\<rparr>"
  have ne: "arts \<noteq> []" using assms(4) by auto
  have w': "snd (save_articles e prompt output_folder w) = write_articles output_folder 1 arts w0"
    unfolding w0_def using assms(1,2) ne by (rule save_articles_parsed)
  have len: "length paths = length arts"
    unfolding paths_def by (rule article_paths_length)
  have i: "i < length arts" using assms(3,4) by simp
  have pj: "paths ! j = path_join output_folder (sanitize_filename (strip (fst (arts ! j))) @ ''.txt'')"
    unfolding paths_def using assms(6)
    by (simp add: article_paths_nth [OF assms(4)] article_path_def safe_title_def)
  have pi: "paths ! i = path_join output_folder (sanitize_filename (strip (fst (arts ! j))) @ ''.txt'')"
    unfolding paths_def using assms(5,6)
    by (simp add: article_paths_nth [OF i] article_path_def safe_title_def)
  have cons: "console (snd (save_articles e prompt output_folder w)) = console w @ map Saved paths"
    unfolding w' paths_def by (simp add: write_articles_console w0_def)
  have dom: "dom (files (snd (save_articles e prompt output_folder w))) = dom (files w) \<union> set paths"
    unfolding w' paths_def by (simp add: write_articles_dom w0_def)
  have "paths ! j \<in> set paths"
    using assms(4) len by simp
  then obtain k where k: "k < length arts" "paths ! k = paths ! j"
      "files (write_articles output_folder 1 arts w0) (paths ! j) =
         Some (TextFile (article_text (fst (arts ! k)) (snd (arts ! k))))"
      "\<forall>m. k < m \<and> m < length arts \<longrightarrow> paths ! m \<noteq> paths ! j"
    unfolding paths_def using write_articles_last [of _ output_folder 1 arts w0] by blast
  have "j \<le> k"
  proof (rule ccontr)
    assume "\<not> j \<le> k"
    then have "k < j \<and> j < length arts" using assms(4) by simp
    with k(4) show False by blast
  qed
  then have last: "\<exists>k. j \<le> k \<and> k < length arts \<and> paths ! k = paths ! j
          \<and> files (snd (save_articles e prompt output_folder w)) (paths ! j) =
              Some (TextFile (article_text (fst (arts ! k)) (snd (arts ! k))))"
    using k(1,2,3) w' by auto
  have card1: "card (set paths) < length arts"
    using repeated_card [of i j paths] assms(3,4) len pi pj by simp
  have "card (dom (files (snd (save_articles e prompt output_folder w))) - dom (files w)) \<le> card (set paths)"
    unfolding dom by (rule card_mono) auto
  then have card2: "card (dom (files (snd (save_articles e prompt output_folder w))) - dom (files w)) < length arts"
    using card1 by simp
  show ?thesis
    using pi pj cons len last dom card1 card2 safe_title_cases
    unfolding paths_def by blast
qed

text \<open>
  The theorem for an answer with two blocks titled \<open>Tea\<close>: \<open>Tea.txt\<close> holds the second
  text, and fewer than two files are new.
\<close>

theorem duplicate_titles_overwrite_witness:
  "findall article_re (strip ''ARTICLE START\<newline>Tea\<newline>Green.\<newline>ARTICLE END\<newline>ARTICLE START\<newline>Tea\<newline>Black.\<newline>ARTICLE END'') = [(''Tea'', ''Green.''), (''Tea'', ''Black.'')]
   \<and> sanitize_filename (strip ''Tea'') = ''Tea''
   \<and> files (snd (save_articles (answering ''ARTICLE START\<newline>Tea\<newline>Green.\<newline>ARTICLE END\<newline>ARTICLE START\<newline>Tea\<newline>Black.\<newline>ARTICLE END'') ''Write articles on tea'' ''out'' empty_world)) ''out/Tea.txt'' =
       Some (TextFile ''Tea\<newline>===\<newline>\<newline>Black.'')
   \<and> card (dom (files (snd (save_articles (answering ''ARTICLE START\<newline>Tea\<newline>Green.\<newline>ARTICLE END\<newline>ARTICLE START\<newline>Tea\<newline>Black.\<newline>ARTICLE END'') ''Write articles on tea'' ''out'' empty_world)))
        - dom (files empty_world)) < 2"
proof -
  define arts where "arts = [(''Tea'', ''Green.''), (''Tea'', ''Black.'')]"
  have parse: "findall article_re (strip ''ARTICLE START\<newline>Tea\<newline>Green.\<newline>ARTICLE END\<newline>ARTICLE START\<newline>Tea\<newline>Black.\<newline>ARTICLE END'') = arts"
    and paths: "article_paths ''out'' 1 arts = [''out/Tea.txt'', ''out/Tea.txt'']"
    and body: "article_text ''Tea'' ''Black.'' = ''Tea\<newline>===\<newline>\<newline>Black.''"
    and san: "sanitize_filename (strip ''Tea'') = ''Tea''"
    unfolding arts_def using duplicate_example by blast+
  have same: "sanitize_filename (strip (fst (arts ! 0))) = sanitize_filename (strip (fst (arts ! 1)))"
    and ne: "sanitize_filename (strip (fst (arts ! 1))) \<noteq> []"
    and ij: "(0::nat) < 1" "1 < length arts"
    using san by (simp_all add: arts_def)
  note t = duplicate_titles_overwrite [where e = "answering ''ARTICLE START\<newline>Tea\<newline>Green.\<newline>ARTICLE END\<newline>ARTICLE START\<newline>Tea\<newline>Black.\<newline>ARTICLE END''" and w = empty_world
      and prompt = "''Write articles on tea''" and output_folder = "''out''" and i = 0 and j = 1,
      OF answering_service parse ij same ne]
  from t obtain k where k: "1 \<le> k" "k < length arts"
    "files (snd (save_articles (answering ''ARTICLE START\<newline>Tea\<newline>Green.\<newline>ARTICLE END\<newline>ARTICLE START\<newline>Tea\<newline>Black.\<newline>ARTICLE END'') ''Write articles on tea'' ''out'' empty_world))
       (article_paths ''out'' 1 arts ! 1) = Some (TextFile (article_text (fst (arts ! k)) (snd (arts ! k))))"
    by blast
  have "k = 1" using k(1,2) by (simp add: arts_def)
  then have f: "files (snd (save_articles (answering ''ARTICLE START\<newline>Tea\<newline>Green.\<newline>ARTICLE END\<newline>ARTICLE START\<newline>Tea\<newline>Black.\<newline>ARTICLE END'') ''Write articles on tea'' ''out'' empty_world)) ''out/Tea.txt'' =
       Some (TextFile ''Tea\<newline>===\<newline>\<newline>Black.'')"
    using k(3) paths body by (simp add: arts_def)
  have c: "card (dom (files (snd (save_articles (answering ''ARTICLE START\<newline>Tea\<newline>Green.\<newline>ARTICLE END\<newline>ARTICLE START\<newline>Tea\<newline>Black.\<newline>ARTICLE END'') ''Write articles on tea'' ''out'' empty_world)))
        - dom (files empty_world)) < 2"
  proof -
    have la: "length arts = 2" by (simp add: arts_def)
    from t have "card (dom (files (snd (save_articles (answering ''ARTICLE START\<newline>Tea\<newline>Green.\<newline>ARTICLE END\<newline>ARTICLE START\<newline>Tea\<newline>Black.\<newline>ARTICLE END'') ''Write articles on tea'' ''out'' empty_world)))
        - dom (files empty_world)) < length arts"
      by blast
    then show ?thesis unfolding la .
  qed
  show ?thesis
    using parse san f c unfolding arts_def by simp
qed

section \<open>The loop after an unsupported task\<close>

text \<open>
  No handler removes a line from the console, and the loop, whatever it is given, first
  asks for a task.
\<close>

lemma save_articles_console: "prefix (console w) (console (snd (save_articles e p f w)))"
  by (simp add: save_articles_def generate_content_def makedirs_def Let_def write_articles_console
      split: sum.splits)

lemma save_notes_console: "prefix (console w) (console (snd (save_notes e p f w)))"
  by (simp add: save_notes_def generate_content_def makedirs_def write_file_def py_print_def Let_def
      split: sum.splits)

lemma save_qna_console: "prefix (console w) (console (snd (save_qna e p f w)))"
  by (simp add: save_qna_def generate_content_def makedirs_def write_file_def py_print_def Let_def
      split: sum.splits)

lemma save_excel_console: "prefix (console w) (console (snd (save_excel e p f w)))"
  by (simp add: save_excel_def makedirs_def write_file_def py_print_def Let_def
      split: sum.splits prod.splits)

lemma save_doc_console: "prefix (console w) (console (snd (save_doc e p f w)))"
  by (simp add: save_doc_def generate_content_def makedirs_def write_file_def py_print_def Let_def
      split: sum.splits)

lemma save_pdf_console: "prefix (console w) (console (snd (save_pdf e p f w)))"
  by (simp add: save_pdf_def generate_content_def makedirs_def write_file_def py_print_def Let_def
      split: sum.splits)

lemma save_ppt_console: "prefix (console w) (console (snd (save_ppt e p f w)))"
  by (simp add: save_ppt_def generate_content_def makedirs_def write_file_def py_print_def Let_def
      split: sum.splits)

lemma handle_task_console: "prefix (console w) (console (snd (handle_task e t f w)))"
  by (simp add: handle_task_def Let_def py_print_def save_articles_console save_notes_console
      save_qna_console save_excel_console save_doc_console save_pdf_console save_ppt_console)

lemma agent_loop_console: "prefix (console w) (console (snd (agent_loop e inputs w)))"
proof (induction e inputs w rule: agent_loop.induct)
  case (1 e w)
  then show ?case by (simp add: py_print_def)
next
  case (2 e task w)
  then show ?case by (simp add: py_print_def)
next
  case (3 e task line rest w)
  show ?case
  proof (cases "lower task = ''exit''")
    case True
    then show ?thesis by (simp add: py_print_def)
  next
    case False
    define folder where "folder = (if strip line = [] then ''outputs'' else strip line)"
    define w2 where "w2 = py_print AskFolder (py_print AskTask w)"
    obtain res w3 where h: "handle_task e task folder w2 = (res, w3)"
      by (cases "handle_task e task folder w2") auto
    have p1: "prefix (console w) (console w2)" by (simp add: w2_def py_print_def)
    have p2: "prefix (console w2) (console w3)"
      using handle_task_console [of w2 e task folder] h by simp
    show ?thesis
    proof (cases res)
      case (Inl err)
      then have "agent_loop e (task # line # rest) w = (Inl err, w3)"
        using False h by (simp add: folder_def w2_def Let_def)
      then show ?thesis using p1 p2 by (auto intro: prefix_order.trans)
    next
      case (Inr u)
      then have eq: "agent_loop e (task # line # rest) w = agent_loop e rest w3"
        using False h by (simp add: folder_def w2_def Let_def)
      have "prefix (console w3) (console (snd (agent_loop e rest w3)))"
        using "3.IH" False h Inr unfolding folder_def w2_def by auto
      then show ?thesis unfolding eq using p1 p2 by (auto intro: prefix_order.trans)
    qed
  qed
qed

lemma agent_loop_asks: "prefix (console w @ [AskTask]) (console (snd (agent_loop e inputs w)))"
proof (cases inputs)
  case Nil
  then show ?thesis by (simp add: py_print_def)
next
  case (Cons task more)
  show ?thesis
  proof (cases "lower task = ''exit''")
    case True
    then show ?thesis using Cons by (cases more) (simp_all add: py_print_def)
  next
    case False
    show ?thesis
    proof (cases more)
      case Nil
      then show ?thesis using Cons False by (simp add: py_print_def)
    next
      case (Cons line rest)
      define folder where "folder = (if strip line = [] then ''outputs'' else strip line)"
      define w2 where "w2 = py_print AskFolder (py_print AskTask w)"
      obtain res w3 where h: "handle_task e task folder w2 = (res, w3)"
        by (cases "handle_task e task folder w2") auto
      have p1: "prefix (console w @ [AskTask]) (console w2)" by (simp add: w2_def py_print_def)
      have p2: "prefix (console w2) (console w3)"
        using handle_task_console [of w2 e task folder] h by simp
      have p3: "prefix (console w3) (console (snd (agent_loop e inputs w)))"
      proof (cases res)
        case (Inl err)
        then have "agent_loop e inputs w = (Inl err, w3)"
          using False h Cons \<open>inputs = task # more\<close> by (simp add: folder_def w2_def Let_def)
        then show ?thesis by simp
      next
        case (Inr u)
        then have "agent_loop e inputs w = agent_loop e rest w3"
          using False h Cons \<open>inputs = task # more\<close> by (simp add: folder_def w2_def Let_def)
        then show ?thesis using agent_loop_console [of w3 e rest] by simp
      qed
      show ?thesis using p1 p2 p3 by (auto intro: prefix_order.trans)
    qed
  qed
qed

text \<open>
  Claim C8. For every task that matches none of the seven rules, the dispatcher prints the
  unsupported-task message and returns without an exception; no file and no folder is
  made. In the loop, when the task is not \<open>exit\<close>, the prompt for the next task is the
  next line printed after the message, whatever input follows: at the end of the input the
  loop stops there with \<open>EOFError\<close>, on \<open>exit\<close> it ends normally, and any other task is
  passed to the dispatcher with the folder read after it.
\<close>

theorem unsupported_task:
  assumes "\<not> sublist ''article'' (lower task)"
    and "\<not> sublist ''note'' (lower task)"
    and "\<not> (sublist ''q'' (lower task) \<and> sublist ''a'' (lower task))"
    and "\<not> (sublist ''excel'' (lower task) \<or> sublist ''spreadsheet'' (lower task))"
    and "\<not> (sublist ''doc'' (lower task) \<or> sublist ''word'' (lower task))"
    and "\<not> sublist ''pdf'' (lower task)"
    and "\<not> (sublist ''ppt'' (lower task) \<or> sublist ''presentation'' (lower task)
          \<or> sublist ''slides'' (lower task))"
  shows "handle_task e task output_folder w = (Inr (), w\<lparr>console := console w @ [Unsupported]\<rparr>)
    \<and> files (snd (handle_task e task output_folder w)) = files w
    \<and> dirs (snd (handle_task e task output_folder w)) = dirs w
    \<and> (lower task \<noteq> ''exit'' \<longrightarrow>
         agent_loop e (task # line # rest) w =
           agent_loop e rest (w\<lparr>console := console w @ [AskTask, AskFolder, Unsupported]\<rparr>)
       \<and> prefix (console w @ [AskTask, AskFolder, Unsupported, AskTask])
           (console (snd (agent_loop e (task # line # rest) w)))
       \<and> agent_loop e [task, line] w =
           (Inl EOFError, w\<lparr>console := console w @ [AskTask, AskFolder, Unsupported, AskTask]\<rparr>)
       \<and> (lower later_task = ''exit'' \<longrightarrow>
            agent_loop e (task # line # later_task # others) w =
              (Inr (), w\<lparr>console := console w @ [AskTask, AskFolder, Unsupported, AskTask]\<rparr>))
       \<and> (lower later_task \<noteq> ''exit'' \<longrightarrow>
            agent_loop e (task # line # later_task # later_line # others) w =
              (case handle_task e later_task (if strip later_line = [] then ''outputs'' else strip later_line)
                      (w\<lparr>console := console w @ [AskTask, AskFolder, Unsupported, AskTask, AskFolder]\<rparr>) of
                 (Inl err, w1) \<Rightarrow> (Inl err, w1)
               | (Inr u, w1) \<Rightarrow> agent_loop e others w1)))"
proof -
  have h: "handle_task e task folder v = (Inr (), v\<lparr>console := console v @ [Unsupported]\<rparr>)"
    for folder v
    using assms by (auto simp add: handle_task_def Let_def py_print_def)
  have step: "agent_loop e (task # line # rest) w =
      agent_loop e rest (w\<lparr>console := console w @ [AskTask, AskFolder, Unsupported]\<rparr>)"
    if "lower task \<noteq> ''exit''" for rest
    using that by (simp add: h py_print_def)
  have asks: "prefix (console w @ [AskTask, AskFolder, Unsupported, AskTask])
      (console (snd (agent_loop e (task # line # rest) w)))"
    if "lower task \<noteq> ''exit''"
    unfolding step [OF that]
    using agent_loop_asks [of "w\<lparr>console := console w @ [AskTask, AskFolder, Unsupported]\<rparr>" e rest]
    by simp
  have eof: "agent_loop e [task, line] w =
      (Inl EOFError, w\<lparr>console := console w @ [AskTask, AskFolder, Unsupported, AskTask]\<rparr>)"
    if "lower task \<noteq> ''exit''"
    unfolding step [OF that] by (simp add: py_print_def)
  have quit: "agent_loop e (task # line # later_task # others) w =
      (Inr (), w\<lparr>console := console w @ [AskTask, AskFolder, Unsupported, AskTask]\<rparr>)"
    if "lower task \<noteq> ''exit''" and "lower later_task = ''exit''"
    unfolding step [OF that(1)] using that(2) by (cases others) (simp_all add: py_print_def)
  have again: "agent_loop e (task # line # later_task # later_line # others) w =
      (case handle_task e later_task (if strip later_line = [] then ''outputs'' else strip later_line)
              (w\<lparr>console := console w @ [AskTask, AskFolder, Unsupported, AskTask, AskFolder]\<rparr>) of
         (Inl err, w1) \<Rightarrow> (Inl err, w1)
       | (Inr u, w1) \<Rightarrow> agent_loop e others w1)"
    if "lower task \<noteq> ''exit''" and "lower later_task \<noteq> ''exit''"
    unfolding step [OF that(1)] using that(2) by (simp add: py_print_def Let_def)
  show ?thesis
    using h [of output_folder w] step [of rest] asks eof quit again by simp
qed

text \<open>
  The theorem at the task \<open>hello\<close>: followed by nothing, by \<open>exit\<close>, and by a second
  unsupported task with a blank folder line and then \<open>exit\<close>.
\<close>

theorem unsupported_task_witness:
  "handle_task (answering ''Tea.'') ''hello'' ''out'' empty_world =
     (Inr (), empty_world\<lparr>console := console empty_world @ [Unsupported]\<rparr>)
   \<and> files (snd (handle_task (answering ''Tea.'') ''hello'' ''out'' empty_world)) = files empty_world
   \<and> agent_loop (answering ''Tea.'') [''hello'', ''out''] empty_world =
       (Inl EOFError, empty_world\<lparr>console := console empty_world @ [AskTask, AskFolder, Unsupported, AskTask]\<rparr>)
   \<and> agent_loop (answering ''Tea.'') [''hello'', ''out'', ''Exit''] empty_world =
       (Inr (), empty_world\<lparr>console := console empty_world @ [AskTask, AskFolder, Unsupported, AskTask]\<rparr>)
   \<and> agent_loop (answering ''Tea.'') [''hello'', ''out'', ''bye'', '' '', ''Exit''] empty_world =
       (Inr (), empty_world\<lparr>console := console empty_world @
          [AskTask, AskFolder, Unsupported, AskTask, AskFolder, Unsupported, AskTask]\<rparr>)"
proof -
  have tests: "\<not> sublist ''article'' (lower ''hello'')
      \<and> \<not> sublist ''note'' (lower ''hello'')
      \<and> \<not> (sublist ''q'' (lower ''hello'') \<and> sublist ''a'' (lower ''hello''))
      \<and> \<not> (sublist ''excel'' (lower ''hello'') \<or> sublist ''spreadsheet'' (lower ''hello''))
      \<and> \<not> (sublist ''doc'' (lower ''hello'') \<or> sublist ''word'' (lower ''hello''))
      \<and> \<not> sublist ''pdf'' (lower ''hello'')
      \<and> \<not> (sublist ''ppt'' (lower ''hello'') \<or> sublist ''presentation'' (lower ''hello'')
          \<or> sublist ''slides'' (lower ''hello''))
      \<and> lower ''hello'' \<noteq> ''exit'' \<and> lower ''Exit'' = ''exit''"
    by code_simp
  have tests2: "\<not> sublist ''article'' (lower ''bye'')
      \<and> \<not> sublist ''note'' (lower ''bye'')
      \<and> \<not> (sublist ''q'' (lower ''bye'') \<and> sublist ''a'' (lower ''bye''))
      \<and> \<not> (sublist ''excel'' (lower ''bye'') \<or> sublist ''spreadsheet'' (lower ''bye''))
      \<and> \<not> (sublist ''doc'' (lower ''bye'') \<or> sublist ''word'' (lower ''bye''))
      \<and> \<not> sublist ''pdf'' (lower ''bye'')
      \<and> \<not> (sublist ''ppt'' (lower ''bye'') \<or> sublist ''presentation'' (lower ''bye'')
          \<or> sublist ''slides'' (lower ''bye''))
      \<and> lower ''bye'' \<noteq> ''exit'' \<and> strip '' '' = []"
    by code_simp
  note first = unsupported_task [where task = "''hello''" and e = "answering ''Tea.''"
      and output_folder = "''out''" and w = empty_world and line = "''out''" and rest = "[''Exit'']"
      and later_task = "''Exit''" and others = "[]"]
  note second = unsupported_task [where task = "''hello''" and e = "answering ''Tea.''"
      and output_folder = "''out''" and w = empty_world and line = "''out''"
      and later_task = "''bye''" and later_line = "'' ''" and others = "[''Exit'']"]
  note third = unsupported_task [where task = "''bye''" and e = "answering ''Tea.''"
      and output_folder = "''outputs''"
      and w = "empty_world\<lparr>console := console empty_world @ [AskTask, AskFolder, Unsupported, AskTask, AskFolder]\<rparr>"]
  have a: "handle_task (answering ''Tea.'') ''hello'' ''out'' empty_world =
     (Inr (), empty_world\<lparr>console := console empty_world @ [Unsupported]\<rparr>)"
    and b: "files (snd (handle_task (answering ''Tea.'') ''hello'' ''out'' empty_world)) = files empty_world"
    and c: "agent_loop (answering ''Tea.'') [''hello'', ''out''] empty_world =
       (Inl EOFError, empty_world\<lparr>console := console empty_world @ [AskTask, AskFolder, Unsupported, AskTask]\<rparr>)"
    and d: "agent_loop (answering ''Tea.'') [''hello'', ''out'', ''Exit''] empty_world =
       (Inr (), empty_world\<lparr>console := console empty_world @ [AskTask, AskFolder, Unsupported, AskTask]\<rparr>)"
    using first tests by blast+
  have e1: "agent_loop (answering ''Tea.'') [''hello'', ''out'', ''bye'', '' '', ''Exit''] empty_world =
      (case handle_task (answering ''Tea.'') ''bye'' (if strip '' '' = [] then ''outputs'' else strip '' '')
              (empty_world\<lparr>console := console empty_world @ [AskTask, AskFolder, Unsupported, AskTask, AskFolder]\<rparr>) of
         (Inl err, w1) \<Rightarrow> (Inl err, w1)
       | (Inr u, w1) \<Rightarrow> agent_loop (answering ''Tea.'') [''Exit''] w1)"
    using second tests tests2 by blast
  have e2: "handle_task (answering ''Tea.'') ''bye'' ''outputs''
      (empty_world\<lparr>console := console empty_world @ [AskTask, AskFolder, Unsupported, AskTask, AskFolder]\<rparr>) =
      (Inr (), empty_world\<lparr>console := console empty_world @ [AskTask, AskFolder, Unsupported, AskTask, AskFolder, Unsupported]\<rparr>)"
    using third tests2 by simp
  have e: "agent_loop (answering ''Tea.'') [''hello'', ''out'', ''bye'', '' '', ''Exit''] empty_world =
       (Inr (), empty_world\<lparr>console := console empty_world @
          [AskTask, AskFolder, Unsupported, AskTask, AskFolder, Unsupported, AskTask]\<rparr>)"
    unfolding e1 using tests tests2 by (simp add: e2 py_print_def)
  show ?thesis using a b c d e by blast
qed

end
